theory Spec2Isabelle
  imports Complex_Main
begin

section \<open>The PDF editor component (src/app.component.ts)\<close>

text \<open>
  The component is event-driven glue over two external libraries: pdf.js (the rasterizer)
  and pdf-lib (the mutation library). The embedding keeps the component's fields in a
  record, passes that record through every method, and records every observable effect
  (alerts, console errors, library calls, the download) in a trace kept in the record.
  The libraries are not part of the repository: their objects are records whose fields
  say what a call answers, so nothing about their behaviour is assumed.

  Numbers: page numbers, page counts and fragment indices are \<open>int\<close> (the integers among
  the JavaScript numbers); coordinates, sizes and the zoom factor are \<open>real\<close>. Every value
  the zoom factor takes is a multiple of 0.25 between 0.5 and 3, and the coordinate example
  792 - 700 is exact in binary floating point as well.
\<close>

subsection \<open>JavaScript Map objects\<close>

text \<open>
  A \<open>Map\<close> iterates in insertion order, so its content is an association list. \<open>set\<close> on a
  key that is present replaces the value in place; on a new key it appends the entry.
\<close>

type_synonym ('k, 'v) jsmap = "('k \<times> 'v) list"

fun Map_set :: "'k \<Rightarrow> 'v \<Rightarrow> ('k, 'v) jsmap \<Rightarrow> ('k, 'v) jsmap" where
  "Map_set k v [] = [(k, v)]"
| "Map_set k v ((k', v') # m) =
     (if k' = k then (k, v) # m else (k', v') # Map_set k v m)"

definition Map_get :: "('k, 'v) jsmap \<Rightarrow> 'k \<Rightarrow> 'v option" where
  "Map_get m k = map_of m k"

subsection \<open>Data of the two libraries\<close>

type_synonym bytes = "nat list"

text \<open>\<open>interface TextItem\<close> (lines 7-14).\<close>

record TextItem =
  str :: string
  dir :: string
  width :: real
  height :: real
  transform :: "real list"
  fontName :: string

record viewport =
  vp_width :: real
  vp_height :: real

text \<open>
  A page of the rasterizer: \<open>getViewport({scale})\<close>, whether \<open>render(...).promise\<close>
  resolves, and what \<open>getTextContent()\<close> resolves to (\<open>None\<close>: it rejects).
\<close>

record pdfjs_page =
  getViewport :: "real \<Rightarrow> viewport"
  render :: bool
  getTextContent :: "TextItem list option"

record pdfjs_doc =
  numPages :: int
  getPage :: "int \<Rightarrow> pdfjs_page option"

datatype font = Helvetica

type_synonym rgb = "real \<times> real \<times> real"

text \<open>
  Calls to the rasterizer and to the mutation library. A coordinate of a drawing call is
  \<open>None\<close> when the expression that computes it reads past the end of the \<open>transform\<close>
  array (\<open>undefined\<close>, or \<open>NaN\<close> after the subtraction).
\<close>

datatype rasterizer_call =
    GetDocument bytes
  | GetPage int
  | GetViewport real
  | Render
  | GetTextContent

datatype mutator_call =
    Load bytes
  | EmbedFont font
  | GetPages
  | GetSize nat
  | DrawRectangle nat "real option" "real option" real real rgb
  | DrawText nat string "real option" "real option" font real rgb
  | Save

datatype event =
    Alert string
  | ConsoleError string
  | LoadScript string
  | ResetFileInput
  | Rasterizer rasterizer_call
  | Mutator mutator_call
  | Download bytes string

text \<open>
  A document of the mutation library: whether \<open>embedFont\<close> resolves, the sizes of the pages
  \<open>getPages()\<close> returns, whether a drawing call is accepted (pdf-lib throws, for instance,
  on text its font cannot encode), and what \<open>save()\<close> resolves to after the given calls.
\<close>

record pdflib_doc =
  embedFont :: bool
  getPages :: "(real \<times> real) list"
  draw_ok :: "mutator_call \<Rightarrow> bool"
  save :: "mutator_call list \<Rightarrow> bytes option"

subsection \<open>The component state\<close>

text \<open>
  The signals and fields of \<open>AppComponent\<close> (lines 22-41). \<open>canvasRef\<close> is \<open>None\<close> while the
  view child is undefined; a canvas is given by the value it reads back for a dimension
  assigned to it. \<open>editedTexts\<close> holds a reference to a \<open>Map\<close> object: the objects live in
  the store \<open>outerMaps\<close> (page number to reference of a per-page map) and \<open>innerMaps\<close>
  (fragment index to replacement text), allocated at \<open>nextOuter\<close> and \<open>nextInner\<close>.
  \<open>scriptsLoadedPromise\<close> is true while the field holds a promise, and \<open>scriptElements\<close>
  lists the \<open>src\<close> of the script elements of the document, which \<open>loadScript\<close> reads and
  extends.
\<close>

type_synonym ref = nat

record state =
  canvasRef :: "(real \<Rightarrow> real) option"
  isLoading :: bool
  pdfFileBuffer :: "bytes option"
  pdfDocProxy :: "pdfjs_doc option"
  currentPage :: int
  totalPages :: int
  zoom :: real
  canvasWidth :: real
  canvasHeight :: real
  textItems :: "TextItem list"
  editedTexts :: ref
  scriptsLoadedPromise :: bool
  scriptElements :: "string list"
  outerMaps :: "ref \<Rightarrow> (int, ref) jsmap"
  innerMaps :: "ref \<Rightarrow> (int, string) jsmap"
  nextOuter :: ref
  nextInner :: ref
  trace :: "event list"

definition emit :: "event list \<Rightarrow> state \<Rightarrow> state" where
  "emit evs s = s\<lparr>trace := trace s @ evs\<rparr>"

text \<open>The field initialisers: page 1 of 0, zoom 1.25, an empty overlay map, no promise; the
  document has none of the two scripts yet.\<close>

definition initial :: "(real \<Rightarrow> real) option \<Rightarrow> state" where
  "initial cv =
     \<lparr>canvasRef = cv, isLoading = False, pdfFileBuffer = None, pdfDocProxy = None,
      currentPage = 1, totalPages = 0, zoom = 5 / 4, canvasWidth = 0, canvasHeight = 0,
      textItems = [], editedTexts = 0, scriptsLoadedPromise = False, scriptElements = [],
      outerMaps = (\<lambda>_. []), innerMaps = (\<lambda>_. []), nextOuter = 1, nextInner = 0,
      trace = []\<rparr>"

text \<open>The overlay as a value: the entries of the map object the signal refers to.\<close>

definition overlay :: "state \<Rightarrow> (int, ref) jsmap" where
  "overlay s = outerMaps s (editedTexts s)"

definition wf_store :: "state \<Rightarrow> bool" where
  "wf_store s \<longleftrightarrow>
     editedTexts s < nextOuter s \<and> (\<forall>(p, r) \<in> set (overlay s). r < nextInner s)"

subsection \<open>Edit tracker\<close>

text \<open>
  \<open>updateText\<close> (lines 177-185), with the new text in place of the DOM event it is read
  from. The callback looks the page's map up or allocates an empty one, sets the entry in
  that object, sets the page's entry in the current outer object, and returns a copy of the
  outer object, which becomes the signal's value.
\<close>

definition updateText :: "int \<Rightarrow> string \<Rightarrow> state \<Rightarrow> state" where
  "updateText itemIndex newText s =
     (let currentMap = editedTexts s;
          (pageEdits, s1) =
             (case Map_get (outerMaps s currentMap) (currentPage s) of
                Some r \<Rightarrow> (r, s)
              | None \<Rightarrow> (nextInner s,
                         s\<lparr>innerMaps := (innerMaps s)(nextInner s := []),
                           nextInner := Suc (nextInner s)\<rparr>));
          s2 = s1\<lparr>innerMaps := (innerMaps s1)
                   (pageEdits := Map_set itemIndex newText (innerMaps s1 pageEdits))\<rparr>;
          s3 = s2\<lparr>outerMaps := (outerMaps s2)
                   (currentMap := Map_set (currentPage s2) pageEdits (outerMaps s2 currentMap))\<rparr>;
          fresh = nextOuter s3
      in s3\<lparr>outerMaps := (outerMaps s3)(fresh := outerMaps s3 currentMap),
            nextOuter := Suc fresh,
            editedTexts := fresh\<rparr>)"

datatype error = TypeError

text \<open>The read \<open>editedTexts().get(page)?.get(itemIndex)\<close>; \<open>None\<close> is \<open>undefined\<close>.\<close>

definition lookupEdit :: "state \<Rightarrow> int \<Rightarrow> int \<Rightarrow> string option" where
  "lookupEdit s p itemIndex =
     (case Map_get (overlay s) p of
        None \<Rightarrow> None
      | Some r \<Rightarrow> Map_get (innerMaps s r) itemIndex)"

text \<open>
  \<open>getEditedText\<close> (lines 290-292). Reading \<open>.str\<close> of an element the array does not have
  throws a TypeError.
\<close>

definition getEditedText :: "int \<Rightarrow> state \<Rightarrow> error + string" where
  "getEditedText itemIndex s =
     (case lookupEdit s (currentPage s) itemIndex of
        Some t \<Rightarrow> Inr t
      | None \<Rightarrow>
          if 0 \<le> itemIndex \<and> itemIndex < int (length (textItems s))
          then Inr (str (textItems s ! nat itemIndex))
          else Inl TypeError)"

text \<open>The per-page map object \<open>updateText\<close> writes to: the page's map, or the one allocated.\<close>

definition pageEditsRef :: "state \<Rightarrow> ref" where
  "pageEditsRef s =
     (case Map_get (overlay s) (currentPage s) of Some r \<Rightarrow> r | None \<Rightarrow> nextInner s)"

subsection \<open>Page renderer\<close>

text \<open>
  \<open>renderPage\<close> (lines 135-175). Both guards return before the loading flag is touched.
  Past them, every failure of a library call lands in the \<open>catch\<close>, and \<open>finally\<close> clears
  the flag.
\<close>

definition renderFailed :: "event list" where
  "renderFailed =
     [ConsoleError ''Failed to render page'',
      Alert ''An error occurred while rendering the page.'']"

definition renderPage :: "int \<Rightarrow> state \<Rightarrow> state" where
  "renderPage pageNum s =
     (case pdfDocProxy s of
        None \<Rightarrow> s
      | Some pdf \<Rightarrow>
          if pageNum < 1 \<or> pageNum > totalPages s then s
          else (case canvasRef s of
              None \<Rightarrow> emit [ConsoleError ''Render called before canvas was ready.''] s
            | Some canvas \<Rightarrow>
                let s1 = s\<lparr>isLoading := True, currentPage := pageNum\<rparr>;
                    s2 = emit [Rasterizer (GetPage pageNum)] s1;
                    s3 =
                      (case getPage pdf pageNum of
                         None \<Rightarrow> emit renderFailed s2
                       | Some page \<Rightarrow>
                           let vp = getViewport page (zoom s2);
                               s4 = emit [Rasterizer (GetViewport (zoom s2))] s2;
                               s5 = s4\<lparr>canvasWidth := canvas (vp_width vp),
                                      canvasHeight := canvas (vp_height vp)\<rparr>;
                               s6 = emit [Rasterizer Render] s5
                           in if \<not> render page then emit renderFailed s6
                              else (case getTextContent page of
                                  None \<Rightarrow> emit (Rasterizer GetTextContent # renderFailed) s6
                                | Some items \<Rightarrow>
                                    (emit [Rasterizer GetTextContent] s6)\<lparr>textItems := items\<rparr>))
                in s3\<lparr>isLoading := False\<rparr>))"

text \<open>Rendering one page after another.\<close>

definition renderPages :: "int list \<Rightarrow> state \<Rightarrow> state" where
  "renderPages qs s = fold renderPage qs s"

definition goToPrevPage :: "state \<Rightarrow> state" where
  "goToPrevPage s = (if currentPage s > 1 then renderPage (currentPage s - 1) s else s)"

definition goToNextPage :: "state \<Rightarrow> state" where
  "goToNextPage s =
     (if currentPage s < totalPages s then renderPage (currentPage s + 1) s else s)"

text \<open>\<open>zoomIn\<close> and \<open>zoomOut\<close> (lines 199-207).\<close>

definition zoomIn :: "state \<Rightarrow> state" where
  "zoomIn s = (let s1 = s\<lparr>zoom := min (zoom s + 1 / 4) 3\<rparr> in renderPage (currentPage s1) s1)"

definition zoomOut :: "state \<Rightarrow> state" where
  "zoomOut s =
     (let s1 = s\<lparr>zoom := max (zoom s - 1 / 4) (1 / 2)\<rparr> in renderPage (currentPage s1) s1)"

text \<open>A run of zoom steps, in the order they are made.\<close>

datatype zoom_action = ZoomIn | ZoomOut

fun zoomStep :: "zoom_action \<Rightarrow> state \<Rightarrow> state" where
  "zoomStep ZoomIn s = zoomIn s"
| "zoomStep ZoomOut s = zoomOut s"

definition zoomSteps :: "zoom_action list \<Rightarrow> state \<Rightarrow> state" where
  "zoomSteps ks s = fold zoomStep ks s"

text \<open>The values the zoom factor can take: 0.5, 0.75, ..., 3.\<close>

definition zoomGrid :: "real \<Rightarrow> bool" where
  "zoomGrid z \<longleftrightarrow> (\<exists>k::nat. k \<le> 10 \<and> z = 1 / 2 + real k / 4)"

subsection \<open>Document loader\<close>

text \<open>
  What the surroundings answer: whether the script at a URL loads when an element for it
  is appended, what \<open>pdfjsLib.getDocument(...).promise\<close> resolves to (\<open>None\<close>: it rejects, or
  the global is missing), and the global \<open>PDFLib\<close> (\<open>None\<close>: undefined), given by its
  \<open>PDFDocument.load\<close>.
\<close>

record env =
  scriptLoads :: "string \<Rightarrow> bool"
  getDocument :: "bytes \<Rightarrow> pdfjs_doc option"
  PDFLib :: "(bytes \<Rightarrow> pdflib_doc option) option"

datatype completion = Resolved | Rejected

definition pdfjs_url :: string where
  "pdfjs_url = ''https://cdnjs.cloudflare.com/ajax/libs/pdf.js/4.2.67/pdf.min.js''"

definition pdflib_url :: string where
  "pdflib_url = ''https://cdn.jsdelivr.net/npm/pdf-lib@1.17.1/dist/pdf-lib.min.js''"

text \<open>
  \<open>loadScript\<close> (lines 47-61): where the document already has a script element with this
  \<open>src\<close> the promise resolves at once; otherwise an element is appended, and stays, and the
  promise settles as the script loads or fails.
\<close>

definition loadScript :: "env \<Rightarrow> string \<Rightarrow> state \<Rightarrow> completion \<times> state" where
  "loadScript e url s =
     (if url \<in> set (scriptElements s) then (Resolved, s)
      else (if scriptLoads e url then Resolved else Rejected,
            emit [LoadScript url] (s\<lparr>scriptElements := scriptElements s @ [url]\<rparr>)))"

text \<open>
  \<open>loadPdfLibraries\<close> (lines 63-80). A promise held by the field is returned as it is.
  Otherwise both scripts are asked for, in this order, before either settles; when both
  resolve the promise is kept, and when one rejects the field is reset to null and the
  failure passed on. The worker location set in between belongs to the library's global
  object, not to the component.
\<close>

definition loadPdfLibraries :: "env \<Rightarrow> state \<Rightarrow> completion \<times> state" where
  "loadPdfLibraries e s =
     (if scriptsLoadedPromise s then (Resolved, s)
      else
        let (c1, s1) = loadScript e pdfjs_url s;
            (c2, s2) = loadScript e pdflib_url s1
        in if c1 = Resolved \<and> c2 = Resolved
           then (Resolved, s2\<lparr>scriptsLoadedPromise := True\<rparr>)
           else (Rejected, s2))"

text \<open>\<open>loadPdf\<close> (lines 123-133). \<open>new Map()\<close> allocates an empty outer map.\<close>

definition loadPdf :: "env \<Rightarrow> bytes \<Rightarrow> state \<Rightarrow> completion \<times> state" where
  "loadPdf e fileBuffer s =
     (let s1 = emit [Rasterizer (GetDocument fileBuffer)] s
      in case getDocument e fileBuffer of
           None \<Rightarrow> (Rejected, s1)
         | Some pdf \<Rightarrow>
             let s2 = s1\<lparr>pdfDocProxy := Some pdf, totalPages := numPages pdf, currentPage := 1\<rparr>;
                 fresh = nextOuter s2;
                 s3 = s2\<lparr>outerMaps := (outerMaps s2)(fresh := []),
                        nextOuter := Suc fresh,
                        editedTexts := fresh\<rparr>
             in (Resolved, renderPage 1 s3))"

text \<open>The callback handed to \<open>setTimeout\<close> (lines 104-113).\<close>

definition deferredLoad :: "env \<Rightarrow> bytes \<Rightarrow> state \<Rightarrow> state" where
  "deferredLoad e fileBuffer s =
     (case loadPdf e fileBuffer s of
        (Resolved, s') \<Rightarrow> s'
      | (Rejected, s') \<Rightarrow>
          (emit [ConsoleError ''Error loading PDF:'', Alert ''Failed to load PDF file.''] s')
            \<lparr>pdfFileBuffer := None, isLoading := False\<rparr>)"

record js_file =
  ftype :: string
  arrayBuffer :: "bytes option"

definition librariesFailed :: "event list" where
  "librariesFailed =
     [ConsoleError ''Error during file processing:'',
      Alert ''Failed to load required PDF libraries. Please check your internet connection and try again.'']"

text \<open>
  \<open>onFileSelected\<close> (lines 82-121), given \<open>input.files\<close> (\<open>None\<close>: null). The chain of this
  user action is the handler followed by the timer callback it schedules; nothing else
  runs in between.
\<close>

definition onFileSelected :: "env \<Rightarrow> js_file list option \<Rightarrow> state \<Rightarrow> state" where
  "onFileSelected e files s =
     (case files of
        None \<Rightarrow> s
      | Some [] \<Rightarrow> s
      | Some (f # _) \<Rightarrow>
          if ftype f \<noteq> ''application/pdf'' then emit [Alert ''Please select a PDF file.''] s
          else
            let s1 = s\<lparr>isLoading := True\<rparr>
            in (case loadPdfLibraries e s1 of
                 (Rejected, s2) \<Rightarrow>
                   emit [ResetFileInput] ((emit librariesFailed s2)\<lparr>isLoading := False\<rparr>)
               | (Resolved, s2) \<Rightarrow>
                   (case arrayBuffer f of
                      None \<Rightarrow>
                        emit [ResetFileInput] ((emit librariesFailed s2)\<lparr>isLoading := False\<rparr>)
                    | Some fileBuffer \<Rightarrow>
                        let s3 = s2\<lparr>pdfFileBuffer := Some fileBuffer\<rparr>;
                            s4 = emit [ResetFileInput] s3
                        in deferredLoad e fileBuffer s4)))"

subsection \<open>Export pipeline\<close>

text \<open>An array read that is \<open>undefined\<close> past the end.\<close>

definition array_at :: "'a list \<Rightarrow> nat \<Rightarrow> 'a option" where
  "array_at xs i = (if i < length xs then Some (xs ! i) else None)"

text \<open>
  The inner loop of \<open>downloadPdf\<close> (lines 240-268) over the entries of one page's map.
  An index at or past the number of fragments is skipped. Below zero the element read is
  \<open>undefined\<close> and reading its \<open>transform\<close> throws, after the viewport has been asked for.
\<close>

fun applyEdits ::
  "pdflib_doc \<Rightarrow> nat \<Rightarrow> pdfjs_page \<Rightarrow> TextItem list \<Rightarrow> (int, string) jsmap
     \<Rightarrow> completion \<times> event list" where
  "applyEdits d pageIndex pdfJsPage items [] = (Resolved, [])"
| "applyEdits d pageIndex pdfJsPage items ((itemIndex, newText) # edits) =
     (if itemIndex \<ge> int (length items) then applyEdits d pageIndex pdfJsPage items edits
      else if itemIndex < 0 then (Rejected, [Rasterizer (GetViewport 1)])
      else
        let item = items ! nat itemIndex;
            viewport = getViewport pdfJsPage 1;
            tx = transform item;
            textWidth = width item;
            textHeight = height item;
            x = array_at tx 4;
            y = map_option (\<lambda>t. vp_height viewport - t) (array_at tx 5);
            rect = DrawRectangle pageIndex x y textWidth textHeight (1, 1, 1);
            text = DrawText pageIndex newText x y Helvetica (textHeight * (9 / 10)) (0, 0, 0)
        in if \<not> draw_ok d rect then (Rejected, [Rasterizer (GetViewport 1), Mutator rect])
           else if \<not> draw_ok d text
             then (Rejected, [Rasterizer (GetViewport 1), Mutator rect, Mutator text])
           else (case applyEdits d pageIndex pdfJsPage items edits of
                   (c, evs) \<Rightarrow>
                     (c, Rasterizer (GetViewport 1) # Mutator rect # Mutator text # evs)))"

text \<open>
  The outer loop (lines 230-269) over the entries of the overlay. \<open>proxy\<close> is the value of
  \<open>pdfDocProxy\<close>; calling \<open>getPage\<close> on null throws.
\<close>

fun exportPages ::
  "pdflib_doc \<Rightarrow> pdfjs_doc option \<Rightarrow> (ref \<Rightarrow> (int, string) jsmap) \<Rightarrow> (int, ref) jsmap
     \<Rightarrow> completion \<times> event list" where
  "exportPages d proxy inner [] = (Resolved, [])"
| "exportPages d proxy inner ((pageNum, edits) # rest) =
     (let pageIndex = pageNum - 1
      in if pageIndex < 0 \<or> pageIndex \<ge> int (length (getPages d))
         then exportPages d proxy inner rest
         else (case proxy of
             None \<Rightarrow> (Rejected, [Mutator (GetSize (nat pageIndex))])
           | Some pdf \<Rightarrow>
               (case getPage pdf pageNum of
                  None \<Rightarrow>
                    (Rejected, [Mutator (GetSize (nat pageIndex)), Rasterizer (GetPage pageNum)])
                | Some pdfJsPage \<Rightarrow>
                    (case getTextContent pdfJsPage of
                       None \<Rightarrow>
                         (Rejected, [Mutator (GetSize (nat pageIndex)),
                                     Rasterizer (GetPage pageNum), Rasterizer GetTextContent])
                     | Some items \<Rightarrow>
                         (case applyEdits d (nat pageIndex) pdfJsPage items (inner edits) of
                            (Rejected, evs) \<Rightarrow>
                              (Rejected, Mutator (GetSize (nat pageIndex)) #
                                 Rasterizer (GetPage pageNum) # Rasterizer GetTextContent # evs)
                          | (Resolved, evs) \<Rightarrow>
                              (case exportPages d proxy inner rest of
                                 (c, evs') \<Rightarrow>
                                   (c, Mutator (GetSize (nat pageIndex)) #
                                      Rasterizer (GetPage pageNum) # Rasterizer GetTextContent #
                                      evs @ evs')))))))"

fun isDraw :: "event \<Rightarrow> bool" where
  "isDraw (Mutator (DrawRectangle k x y w h c)) = True"
| "isDraw (Mutator (DrawText k t x y f z c)) = True"
| "isDraw _ = False"

fun drawn :: "event list \<Rightarrow> mutator_call list" where
  "drawn [] = []"
| "drawn (Mutator c # evs) = (if isDraw (Mutator c) then c # drawn evs else drawn evs)"
| "drawn (_ # evs) = drawn evs"

text \<open>The body of the \<open>try\<close> block of \<open>downloadPdf\<close> (lines 224-279).\<close>

definition exportBody ::
  "(bytes \<Rightarrow> pdflib_doc option) \<Rightarrow> bytes \<Rightarrow> state \<Rightarrow> completion \<times> event list" where
  "exportBody load originalFileBuffer s =
     (case load originalFileBuffer of
        None \<Rightarrow> (Rejected, [Mutator (Load originalFileBuffer)])
      | Some pdfDoc \<Rightarrow>
          if \<not> embedFont pdfDoc
          then (Rejected, [Mutator (Load originalFileBuffer), Mutator (EmbedFont Helvetica)])
          else (case exportPages pdfDoc (pdfDocProxy s) (innerMaps s) (overlay s) of
              (Rejected, evs) \<Rightarrow>
                (Rejected, Mutator (Load originalFileBuffer) # Mutator (EmbedFont Helvetica) #
                   Mutator GetPages # evs)
            | (Resolved, evs) \<Rightarrow>
                (case save pdfDoc (drawn evs) of
                   None \<Rightarrow>
                     (Rejected, Mutator (Load originalFileBuffer) #
                        Mutator (EmbedFont Helvetica) # Mutator GetPages # evs @ [Mutator Save])
                 | Some pdfBytes \<Rightarrow>
                     (Resolved, Mutator (Load originalFileBuffer) #
                        Mutator (EmbedFont Helvetica) # Mutator GetPages # evs @
                        [Mutator Save, Download pdfBytes ''edited_document.pdf'']))))"

definition saveFailed :: "event list" where
  "saveFailed =
     [ConsoleError ''Error saving PDF:'', Alert ''An error occurred while saving the PDF.'']"

text \<open>\<open>downloadPdf\<close> (lines 209-287): the two guards, then the \<open>try\<close> block with its
  \<open>catch\<close> and \<open>finally\<close>.\<close>

definition downloadPdf :: "env \<Rightarrow> state \<Rightarrow> state" where
  "downloadPdf e s =
     (case pdfFileBuffer s of
        None \<Rightarrow> emit [Alert ''No PDF loaded or PDF library not available.''] s
      | Some originalFileBuffer \<Rightarrow>
          (case PDFLib e of
             None \<Rightarrow> emit [Alert ''No PDF loaded or PDF library not available.''] s
           | Some load \<Rightarrow>
               if overlay s = [] then emit [Alert ''No changes have been made.''] s
               else
                 let s1 = s\<lparr>isLoading := True\<rparr>
                 in (case exportBody load originalFileBuffer s1 of
                      (Resolved, evs) \<Rightarrow> (emit evs s1)\<lparr>isLoading := False\<rparr>
                    | (Rejected, evs) \<Rightarrow> (emit (evs @ saveFailed) s1)\<lparr>isLoading := False\<rparr>)))"

text \<open>Which events are calls to the rasterizer, and which to the mutation library.\<close>

fun isRasterizerCall :: "event \<Rightarrow> bool" where
  "isRasterizerCall (Rasterizer c) = True"
| "isRasterizerCall _ = False"

fun isMutatorCall :: "event \<Rightarrow> bool" where
  "isMutatorCall (Mutator c) = True"
| "isMutatorCall _ = False"

text \<open>The events one call of \<open>downloadPdf\<close> adds to the trace.\<close>

definition exported :: "env \<Rightarrow> state \<Rightarrow> event list" where
  "exported e s = drop (length (trace s)) (trace (downloadPdf e s))"

text \<open>
  The position the specification gives for an edited fragment: \<open>x = transform[4]\<close> and
  \<open>outputY = pageHeight - transform[5]\<close>, with the height of the page's viewport at scale 1;
  and the two drawing calls it expects there: the white rectangle of the fragment's width and
  height, and the replacement text in the embedded font at 0.9 of the fragment's height.
\<close>

definition outputPosition :: "pdfjs_page \<Rightarrow> TextItem \<Rightarrow> real option \<times> real option" where
  "outputPosition pg item =
     (array_at (transform item) 4,
      map_option (\<lambda>t. vp_height (getViewport pg 1) - t) (array_at (transform item) 5))"

definition coverCall :: "nat \<Rightarrow> pdfjs_page \<Rightarrow> TextItem \<Rightarrow> mutator_call" where
  "coverCall k pg item =
     DrawRectangle k (fst (outputPosition pg item)) (snd (outputPosition pg item))
       (width item) (height item) (1, 1, 1)"

definition textCall :: "nat \<Rightarrow> pdfjs_page \<Rightarrow> TextItem \<Rightarrow> string \<Rightarrow> mutator_call" where
  "textCall k pg item t =
     DrawText k t (fst (outputPosition pg item)) (snd (outputPosition pg item))
       Helvetica (height item * (9 / 10)) (0, 0, 0)"

subsection \<open>Example documents\<close>

text \<open>
  The document of the specification's example: one page of height 792 at scale 1 with one
  fragment at transform [1,0,0,1,50,700], width 40, height 12. A second document adds a
  page with three fragments.
\<close>

definition ex_fragment :: TextItem where
  "ex_fragment =
     \<lparr>str = ''Hello'', dir = ''ltr'', width = 40, height = 12,
      transform = [1, 0, 0, 1, 50, 700], fontName = ''g_d0_f1''\<rparr>"

definition ex_page :: pdfjs_page where
  "ex_page =
     \<lparr>getViewport = (\<lambda>scale. \<lparr>vp_width = 612 * scale, vp_height = 792 * scale\<rparr>),
      render = True, getTextContent = Some [ex_fragment]\<rparr>"

definition ex_page2 :: pdfjs_page where
  "ex_page2 =
     \<lparr>getViewport = (\<lambda>scale. \<lparr>vp_width = 612 * scale, vp_height = 792 * scale\<rparr>),
      render = True,
      getTextContent = Some [ex_fragment\<lparr>str := ''one''\<rparr>, ex_fragment\<lparr>str := ''two''\<rparr>,
                             ex_fragment\<lparr>str := ''three''\<rparr>]\<rparr>"

definition ex_doc :: pdfjs_doc where
  "ex_doc = \<lparr>numPages = 1, getPage = (\<lambda>n. if n = 1 then Some ex_page else None)\<rparr>"

definition ex_doc2 :: pdfjs_doc where
  "ex_doc2 =
     \<lparr>numPages = 2,
      getPage = (\<lambda>n. if n = 1 then Some ex_page else if n = 2 then Some ex_page2 else None)\<rparr>"

definition ex_mutable :: "nat \<Rightarrow> pdflib_doc" where
  "ex_mutable n =
     \<lparr>embedFont = True, getPages = replicate n (612, 792), draw_ok = (\<lambda>_. True),
      save = (\<lambda>calls. Some [length calls])\<rparr>"

definition ex_env :: env where
  "ex_env =
     \<lparr>scriptLoads = (\<lambda>_. True), getDocument = (\<lambda>_. Some ex_doc),
      PDFLib = Some (\<lambda>_. Some (ex_mutable 1))\<rparr>"

definition ex_env2 :: env where
  "ex_env2 =
     \<lparr>scriptLoads = (\<lambda>_. True), getDocument = (\<lambda>_. Some ex_doc2),
      PDFLib = Some (\<lambda>_. Some (ex_mutable 2))\<rparr>"

definition ex_file :: js_file where
  "ex_file = \<lparr>ftype = ''application/pdf'', arrayBuffer = Some [37, 80, 68, 70]\<rparr>"

text \<open>The session after the example file has been selected and loaded, with a canvas.\<close>

definition ex_loaded :: state where
  "ex_loaded = onFileSelected ex_env (Some [ex_file]) (initial (Some (\<lambda>x. x)))"

definition ex_loaded2 :: state where
  "ex_loaded2 = onFileSelected ex_env2 (Some [ex_file]) (initial (Some (\<lambda>x. x)))"

text \<open>The loaded session after fragment 0 of page 1 has been edited to \<open>X\<close>.\<close>

definition ex_edited :: state where
  "ex_edited = updateText 0 ''X'' ex_loaded"

text \<open>Page 2 of the second document shown, with edits recorded for fragments 5 and 1.\<close>

definition ex_stale :: state where
  "ex_stale = updateText 1 ''Y'' (updateText 5 ''X'' (renderPage 2 ex_loaded2))"

lemma urls_distinct: "pdfjs_url \<noteq> pdflib_url" "pdflib_url \<noteq> pdfjs_url"
  by (simp_all add: pdfjs_url_def pdflib_url_def)

lemmas ex_defs =
  ex_fragment_def ex_page_def ex_page2_def ex_doc_def ex_doc2_def ex_mutable_def ex_env_def
  ex_env2_def ex_file_def ex_loaded_def ex_loaded2_def

lemmas load_defs =
  initial_def onFileSelected_def loadPdfLibraries_def loadScript_def deferredLoad_def
  loadPdf_def renderPage_def emit_def Let_def urls_distinct

section \<open>Properties\<close>

subsection \<open>Map objects and the store\<close>

lemma Map_get_Map_set:
  "Map_get (Map_set k v m) k' = (if k' = k then Some v else Map_get m k')"
  by (induction m) (auto simp: Map_get_def)

lemma Map_get_Some_mem: "Map_get m k = Some v \<Longrightarrow> (k, v) \<in> set m"
  by (simp add: Map_get_def map_of_SomeD)

lemma set_Map_set: "set (Map_set k v m) \<subseteq> insert (k, v) (set m)"
  by (induction m) (auto split: if_splits)

lemma getEditedText_lookup:
  "getEditedText i s =
     (case lookupEdit s (currentPage s) i of
        Some t \<Rightarrow> Inr t
      | None \<Rightarrow>
          if 0 \<le> i \<and> i < int (length (textItems s))
          then Inr (str (textItems s ! nat i)) else Inl TypeError)"
  by (simp add: getEditedText_def)

lemma updateText_currentPage: "currentPage (updateText i t s) = currentPage s"
  by (simp add: updateText_def Let_def split: option.split)

lemma updateText_lookup: "lookupEdit (updateText i t s) (currentPage s) i = Some t"
  by (simp add: updateText_def lookupEdit_def overlay_def Let_def Map_get_Map_set
        split: option.split)
     (simp add: Map_get_def)

lemma renderPage_store:
  "outerMaps (renderPage q s) = outerMaps s"
  "innerMaps (renderPage q s) = innerMaps s"
  "editedTexts (renderPage q s) = editedTexts s"
  "nextOuter (renderPage q s) = nextOuter s"
  "nextInner (renderPage q s) = nextInner s"
  by (simp_all add: renderPage_def emit_def Let_def split: option.split)

lemma renderPage_lookup: "lookupEdit (renderPage q s) = lookupEdit s"
  by (simp add: lookupEdit_def overlay_def renderPage_store fun_eq_iff split: option.split)

lemma renderPages_lookup: "lookupEdit (renderPages qs s) = lookupEdit s"
  unfolding renderPages_def by (induction qs arbitrary: s) (simp_all add: renderPage_lookup)

text \<open>The store stays well formed: references in use are allocated.\<close>

lemma wf_store_initial: "wf_store (initial cv)"
  by (simp add: wf_store_def initial_def overlay_def)

lemma wf_store_updateText: "wf_store s \<Longrightarrow> wf_store (updateText i t s)"
  using set_Map_set[of "currentPage s" _ "outerMaps s (editedTexts s)"]
  by (fastforce simp: updateText_def wf_store_def overlay_def Let_def
        split: option.split dest: Map_get_Some_mem)

lemma wf_store_renderPage: "wf_store s \<Longrightarrow> wf_store (renderPage q s)"
  by (simp add: wf_store_def overlay_def renderPage_store)

subsection \<open>Edit tracker\<close>

text \<open>
  C2, as the code has it. Recording an edit makes the signal refer to a newly allocated
  outer map, distinct from the one it referred to before, and that new map holds the old
  entries with the page's entry set. The update is not free of mutation, though: the outer
  map held before receives the same entry in place, and the page's own map (the existing
  one, or a newly allocated one) receives the fragment's entry in place. No other map
  object of the store changes.
\<close>

theorem updateText_new_reference:
  assumes "wf_store s"
  shows "editedTexts (updateText i t s) \<noteq> editedTexts s \<and>
         overlay (updateText i t s) = Map_set (currentPage s) (pageEditsRef s) (overlay s) \<and>
         outerMaps (updateText i t s) (editedTexts s) =
           Map_set (currentPage s) (pageEditsRef s) (overlay s) \<and>
         innerMaps (updateText i t s) (pageEditsRef s) =
           Map_set i t (case Map_get (overlay s) (currentPage s) of
                          Some r \<Rightarrow> innerMaps s r | None \<Rightarrow> []) \<and>
         (\<forall>r'. r' \<noteq> pageEditsRef s \<longrightarrow> innerMaps (updateText i t s) r' = innerMaps s r') \<and>
         (\<forall>o'. o' \<noteq> editedTexts s \<and> o' \<noteq> editedTexts (updateText i t s) \<longrightarrow>
               outerMaps (updateText i t s) o' = outerMaps s o')"
  using assms
  by (simp add: updateText_def wf_store_def overlay_def pageEditsRef_def Let_def
        split: option.split)

theorem updateText_new_reference_witness:
  "wf_store (updateText 0 ''X'' (initial None)) \<and>
   editedTexts (updateText 1 ''Y'' (updateText 0 ''X'' (initial None))) \<noteq>
     editedTexts (updateText 0 ''X'' (initial None)) \<and>
   overlay (updateText 1 ''Y'' (updateText 0 ''X'' (initial None))) = [(1, 0)] \<and>
   innerMaps (updateText 1 ''Y'' (updateText 0 ''X'' (initial None))) 0 =
     [(0, ''X''), (1, ''Y'')]"
proof -
  have wf: "wf_store (updateText 0 ''X'' (initial None))"
    by (rule wf_store_updateText [OF wf_store_initial])
  from updateText_new_reference [OF wf, of 1 "''Y''"] wf show ?thesis
    by (simp add: updateText_def initial_def Map_get_def overlay_def pageEditsRef_def Let_def)
qed

text \<open>
  C2 as stated fails. In the initial session the overlay is the empty map object; after one
  edit that same object holds the entry of page 1. After a second edit on the page, the
  per-page map the first overlay referred to holds both entries.
\<close>

theorem updateText_mutates_counterexample:
  "outerMaps (initial None) (editedTexts (initial None)) = [] \<and>
   outerMaps (updateText 0 ''X'' (initial None)) (editedTexts (initial None)) = [(1, 0)] \<and>
   overlay (updateText 0 ''X'' (initial None)) = [(1, 0)] \<and>
   innerMaps (updateText 0 ''X'' (initial None)) 0 = [(0, ''X'')] \<and>
   innerMaps (updateText 1 ''Y'' (updateText 0 ''X'' (initial None))) 0 =
     [(0, ''X''), (1, ''Y'')]"
  by (simp add: updateText_def initial_def Map_get_def overlay_def Let_def)

text \<open>
  C5. After an edit of fragment \<open>i\<close> is recorded on the current page, the displayed text
  of fragment \<open>i\<close> is the recorded string whenever that page is the current one again,
  whatever pages were rendered in between. Where no edit is recorded for the current page
  and the index, the displayed text is the text of the fragment at that index.
\<close>

theorem recordEdit_then_display:
  "(currentPage (renderPages qs (updateText i X s)) = currentPage s \<longrightarrow>
      getEditedText i (renderPages qs (updateText i X s)) = Inr X) \<and>
   (lookupEdit s (currentPage s) j = None \<and> 0 \<le> j \<and> j < int (length (textItems s)) \<longrightarrow>
      getEditedText j s = Inr (str (textItems s ! nat j)))"
  by (simp add: getEditedText_lookup renderPages_lookup updateText_lookup)

theorem recordEdit_then_display_witness:
  "currentPage (renderPages [2, 1] (updateText 0 ''X'' ex_loaded2)) = currentPage ex_loaded2 \<and>
   getEditedText 0 (renderPages [2, 1] (updateText 0 ''X'' ex_loaded2)) = Inr ''X'' \<and>
   currentPage (renderPages [2] (updateText 0 ''X'' ex_loaded2)) = 2 \<and>
   lookupEdit ex_loaded2 (currentPage ex_loaded2) 0 = None \<and>
   getEditedText 0 ex_loaded2 = Inr ''Hello''"
  using recordEdit_then_display [of "[2, 1]" 0 "''X''" ex_loaded2 0]
  by (simp add: ex_defs load_defs overlay_def renderPages_def updateText_def lookupEdit_def
        Map_get_def)

text \<open>
  C10. The read path is partial: with no edit recorded for the current page and the index,
  and the index outside the rendered page's fragment list, the read throws.
\<close>

theorem getEditedText_partial:
  assumes "lookupEdit s (currentPage s) i = None"
    and "i < 0 \<or> int (length (textItems s)) \<le> i"
  shows "getEditedText i s = Inl TypeError"
  using assms by (auto simp: getEditedText_lookup)

theorem getEditedText_partial_witness:
  "lookupEdit ex_loaded (currentPage ex_loaded) 1 = None \<and>
   int (length (textItems ex_loaded)) \<le> 1 \<and>
   getEditedText 1 ex_loaded = Inl TypeError \<and>
   lookupEdit ex_loaded (currentPage ex_loaded) (- 1) = None \<and>
   getEditedText (- 1) ex_loaded = Inl TypeError"
  using getEditedText_partial [of ex_loaded 1] getEditedText_partial [of ex_loaded "- 1"]
  by (simp add: ex_defs load_defs overlay_def lookupEdit_def Map_get_def)

subsection \<open>Page renderer and zoom\<close>

lemma renderPage_zoom: "zoom (renderPage q s) = zoom s"
  by (simp add: renderPage_def emit_def Let_def split: option.split)

lemma renderPage_totalPages: "totalPages (renderPage q s) = totalPages s"
  by (simp add: renderPage_def emit_def Let_def split: option.split)

lemma renderPage_pdfDocProxy: "pdfDocProxy (renderPage q s) = pdfDocProxy s"
  by (simp add: renderPage_def emit_def Let_def split: option.split)

lemma renderPage_currentPage_same: "currentPage s = q \<Longrightarrow> currentPage (renderPage q s) = q"
  by (simp add: renderPage_def emit_def Let_def split: option.split)

lemma renderPage_overlay: "overlay (renderPage q s) = overlay s"
  by (simp add: overlay_def renderPage_store)

text \<open>Past its guards \<open>renderPage\<close> clears the loading flag; a guard leaves it as it was.\<close>

lemma renderPage_isLoading:
  "isLoading (renderPage q s) =
     (if pdfDocProxy s = None \<or> q < 1 \<or> q > totalPages s \<or> canvasRef s = None
      then isLoading s else False)"
  by (simp add: renderPage_def emit_def Let_def split: option.split)

lemma zoomIn_zoom: "zoom (zoomIn s) = min (zoom s + 1 / 4) 3"
  by (simp add: zoomIn_def Let_def renderPage_zoom)

lemma zoomOut_zoom: "zoom (zoomOut s) = max (zoom s - 1 / 4) (1 / 2)"
  by (simp add: zoomOut_def Let_def renderPage_zoom)

lemma zoomGrid_initial: "zoomGrid (5 / 4)"
  unfolding zoomGrid_def by (rule exI [of _ 3]) simp

lemma zoomGrid_range: "zoomGrid z \<Longrightarrow> 1 / 2 \<le> z \<and> z \<le> 3"
  unfolding zoomGrid_def by auto

lemma zoomGrid_in:
  assumes "zoomGrid z"
  shows "zoomGrid (min (z + 1 / 4) 3)"
proof -
  from assms obtain k :: nat where k: "k \<le> 10" "z = 1 / 2 + real k / 4"
    unfolding zoomGrid_def by blast
  show ?thesis
  proof (cases "k = 10")
    case True
    with k show ?thesis unfolding zoomGrid_def by (intro exI [of _ 10]) simp
  next
    case False
    with k have "Suc k \<le> 10" by simp
    moreover from k \<open>Suc k \<le> 10\<close> have "min (z + 1 / 4) 3 = 1 / 2 + real (Suc k) / 4"
      by (simp add: min_def field_simps)
    ultimately show ?thesis unfolding zoomGrid_def by blast
  qed
qed

lemma zoomGrid_out:
  assumes "zoomGrid z"
  shows "zoomGrid (max (z - 1 / 4) (1 / 2))"
proof -
  from assms obtain k :: nat where k: "k \<le> 10" "z = 1 / 2 + real k / 4"
    unfolding zoomGrid_def by blast
  show ?thesis
  proof (cases k)
    case 0
    with k show ?thesis unfolding zoomGrid_def by (intro exI [of _ 0]) simp
  next
    case (Suc j)
    with k have "j \<le> 10" by simp
    moreover from k Suc have "max (z - 1 / 4) (1 / 2) = 1 / 2 + real j / 4"
      by (simp add: max_def field_simps)
    ultimately show ?thesis unfolding zoomGrid_def by blast
  qed
qed

lemma zoomGrid_step_in:
  assumes "zoomGrid z"
  shows "min (z + 1 / 4) 3 = z + 1 / 4 \<or> z = 3"
proof -
  from assms obtain k :: nat where k: "k \<le> 10" "z = 1 / 2 + real k / 4"
    unfolding zoomGrid_def by blast
  show ?thesis
  proof (cases "k = 10")
    case True
    with k show ?thesis by simp
  next
    case False
    with k have "real k \<le> 9" by simp
    with k show ?thesis by (simp add: min_def)
  qed
qed

lemma zoomGrid_step_out:
  assumes "zoomGrid z"
  shows "max (z - 1 / 4) (1 / 2) = z - 1 / 4 \<or> z = 1 / 2"
proof -
  from assms obtain k :: nat where k: "k \<le> 10" "z = 1 / 2 + real k / 4"
    unfolding zoomGrid_def by blast
  show ?thesis
  proof (cases "k = 0")
    case True
    with k show ?thesis by simp
  next
    case False
    then have "1 \<le> real k" by simp
    with k show ?thesis by (simp add: max_def)
  qed
qed

lemma zoomGrid_steps: "zoomGrid (zoom s) \<Longrightarrow> zoomGrid (zoom (zoomSteps ks s))"
  unfolding zoomSteps_def
proof (induction ks arbitrary: s)
  case Nil
  then show ?case by simp
next
  case (Cons k ks)
  have "zoomGrid (zoom (zoomStep k s))"
    using Cons.prems
    by (cases k) (simp_all add: zoomIn_zoom zoomOut_zoom zoomGrid_in zoomGrid_out)
  then show ?case using Cons.IH by simp
qed

text \<open>
  C9. After any run of zoom-in and zoom-out steps from the initial factor 1.25 the factor
  lies between 0.5 and 3, the configured minimum and maximum. A step moves it by the fixed
  increment 0.25 within that range: the next zoom-in raises it by 0.25, the clamp holding
  it at 3, and the next zoom-out lowers it by 0.25, the clamp holding it at 0.5.
\<close>

theorem zoom_stays_in_range:
  assumes "zoom s = 5 / 4"
  shows "1 / 2 \<le> zoom (zoomSteps ks s) \<and> zoom (zoomSteps ks s) \<le> 3 \<and>
         (zoom (zoomIn (zoomSteps ks s)) = zoom (zoomSteps ks s) + 1 / 4 \<or>
          zoom (zoomSteps ks s) = 3 \<and> zoom (zoomIn (zoomSteps ks s)) = 3) \<and>
         (zoom (zoomOut (zoomSteps ks s)) = zoom (zoomSteps ks s) - 1 / 4 \<or>
          zoom (zoomSteps ks s) = 1 / 2 \<and> zoom (zoomOut (zoomSteps ks s)) = 1 / 2)"
proof -
  have "zoomGrid (zoom s)"
    by (simp only: assms zoomGrid_initial)
  then have g: "zoomGrid (zoom (zoomSteps ks s))"
    by (rule zoomGrid_steps)
  from zoomGrid_range [OF g] zoomGrid_step_in [OF g] zoomGrid_step_out [OF g]
  show ?thesis by (auto simp: zoomIn_zoom zoomOut_zoom)
qed

theorem zoom_stays_in_range_witness:
  "zoom (initial None) = 5 / 4 \<and>
   zoom (zoomSteps [ZoomOut, ZoomOut, ZoomOut] (initial None)) = 1 / 2 \<and>
   zoom (zoomOut (zoomSteps [ZoomOut, ZoomOut, ZoomOut] (initial None))) = 1 / 2 \<and>
   zoom (zoomIn (zoomSteps [ZoomOut, ZoomOut, ZoomOut] (initial None))) = 3 / 4 \<and>
   zoom (zoomSteps [ZoomIn, ZoomIn, ZoomIn, ZoomIn, ZoomIn, ZoomIn, ZoomIn] (initial None)) = 3 \<and>
   zoom (zoomIn (zoomSteps [ZoomIn, ZoomIn, ZoomIn, ZoomIn, ZoomIn, ZoomIn, ZoomIn]
                   (initial None))) = 3"
  using zoom_stays_in_range [of "initial None" "[ZoomOut, ZoomOut, ZoomOut]"]
    zoom_stays_in_range [of "initial None" "[ZoomIn, ZoomIn, ZoomIn, ZoomIn, ZoomIn, ZoomIn, ZoomIn]"]
  by (simp add: zoomSteps_def zoomIn_zoom zoomOut_zoom initial_def)


subsection \<open>Document loader\<close>

text \<open>
  C6. Whatever the session was, when the rasterizer parses the new bytes \<open>loadPdf\<close>
  resolves with the overlay empty, the current page 1 and the page count that of the new
  document; the deferred callback ends in that state.
\<close>

theorem loadPdf_resets_session:
  assumes "getDocument e fileBuffer = Some pdf"
  shows "fst (loadPdf e fileBuffer s) = Resolved \<and>
         overlay (snd (loadPdf e fileBuffer s)) = [] \<and>
         currentPage (snd (loadPdf e fileBuffer s)) = 1 \<and>
         totalPages (snd (loadPdf e fileBuffer s)) = numPages pdf \<and>
         pdfDocProxy (snd (loadPdf e fileBuffer s)) = Some pdf \<and>
         deferredLoad e fileBuffer s = snd (loadPdf e fileBuffer s)"
  using assms
  by (simp add: loadPdf_def deferredLoad_def Let_def renderPage_overlay renderPage_totalPages
        renderPage_currentPage_same renderPage_pdfDocProxy)
     (simp add: overlay_def emit_def)

theorem loadPdf_resets_session_witness:
  "getDocument ex_env2 [1, 2, 3] = Some ex_doc2 \<and>
   overlay ex_edited = [(1, 0)] \<and>
   overlay (snd (loadPdf ex_env2 [1, 2, 3] ex_edited)) = [] \<and>
   currentPage (snd (loadPdf ex_env2 [1, 2, 3] ex_edited)) = 1 \<and>
   totalPages (snd (loadPdf ex_env2 [1, 2, 3] ex_edited)) = 2"
  using loadPdf_resets_session [of ex_env2 "[1, 2, 3]" ex_doc2 ex_edited]
  by (simp add: ex_defs ex_edited_def load_defs overlay_def updateText_def Map_get_def)

text \<open>
  C8. A selected file whose type is not \<open>application/pdf\<close> only raises the notice: the
  session is the old one with the alert appended to the trace, so the rasterizer is not
  called and the buffer, the parsed handle, the page number, the page count and the overlay
  with its map objects are unchanged.
\<close>

theorem onFileSelected_rejects_other_types:
  assumes "ftype f \<noteq> ''application/pdf''"
  shows "onFileSelected e (Some (f # fs)) s =
           s\<lparr>trace := trace s @ [Alert ''Please select a PDF file.'']\<rparr> \<and>
         filter isRasterizerCall (trace (onFileSelected e (Some (f # fs)) s)) =
           filter isRasterizerCall (trace s) \<and>
         pdfFileBuffer (onFileSelected e (Some (f # fs)) s) = pdfFileBuffer s \<and>
         pdfDocProxy (onFileSelected e (Some (f # fs)) s) = pdfDocProxy s \<and>
         currentPage (onFileSelected e (Some (f # fs)) s) = currentPage s \<and>
         totalPages (onFileSelected e (Some (f # fs)) s) = totalPages s \<and>
         editedTexts (onFileSelected e (Some (f # fs)) s) = editedTexts s \<and>
         outerMaps (onFileSelected e (Some (f # fs)) s) = outerMaps s \<and>
         innerMaps (onFileSelected e (Some (f # fs)) s) = innerMaps s"
  using assms by (simp add: onFileSelected_def emit_def)

text \<open>The loaded and edited example session, field by field.\<close>

lemma ex_loaded_eval:
  "ex_loaded =
     \<lparr>canvasRef = Some (\<lambda>x. x), isLoading = False, pdfFileBuffer = Some [37, 80, 68, 70],
      pdfDocProxy = Some ex_doc, currentPage = 1, totalPages = 1, zoom = 5 / 4,
      canvasWidth = 765, canvasHeight = 990, textItems = [ex_fragment], editedTexts = 1,
      scriptsLoadedPromise = True, scriptElements = [pdfjs_url, pdflib_url],
      outerMaps = (\<lambda>_. [])(1 := []), innerMaps = (\<lambda>_. []),
      nextOuter = 2, nextInner = 0,
      trace = [LoadScript pdfjs_url, LoadScript pdflib_url, ResetFileInput,
               Rasterizer (GetDocument [37, 80, 68, 70]),
               Rasterizer (GetPage 1), Rasterizer (GetViewport (5 / 4)),
               Rasterizer Render, Rasterizer GetTextContent]\<rparr>"
  by (simp add: ex_loaded_def ex_env_def ex_file_def ex_doc_def ex_page_def load_defs
        urls_distinct)

theorem onFileSelected_rejects_other_types_witness:
  "ftype (ex_file\<lparr>ftype := ''image/png''\<rparr>) \<noteq> ''application/pdf'' \<and>
   onFileSelected ex_env2 (Some [ex_file\<lparr>ftype := ''image/png''\<rparr>]) ex_edited =
     ex_edited\<lparr>trace := trace ex_edited @ [Alert ''Please select a PDF file.'']\<rparr> \<and>
   pdfDocProxy (onFileSelected ex_env2 (Some [ex_file\<lparr>ftype := ''image/png''\<rparr>]) ex_edited)
     = Some ex_doc \<and>
   overlay (onFileSelected ex_env2 (Some [ex_file\<lparr>ftype := ''image/png''\<rparr>]) ex_edited)
     = [(1, 0)]"
  using onFileSelected_rejects_other_types
    [of "ex_file\<lparr>ftype := ''image/png''\<rparr>" ex_env2 "[]" ex_edited]
  by (simp add: ex_file_def ex_edited_def ex_loaded_eval updateText_def overlay_def Map_get_def)

text \<open>
  When \<open>loadPdfLibraries\<close> resolves, and what it leaves alone. After a failed attempt both
  script elements are in the document, so the next attempt resolves without loading
  anything.
\<close>

lemma loadPdfLibraries_fst:
  "fst (loadPdfLibraries e s) = Resolved \<longleftrightarrow>
     scriptsLoadedPromise s \<or>
     (pdfjs_url \<in> set (scriptElements s) \<or> scriptLoads e pdfjs_url) \<and>
     (pdflib_url \<in> set (scriptElements s) \<or> scriptLoads e pdflib_url)"
  by (simp add: loadPdfLibraries_def loadScript_def emit_def urls_distinct)

lemma loadPdfLibraries_frame:
  "isLoading (snd (loadPdfLibraries e s)) = isLoading s"
  "canvasRef (snd (loadPdfLibraries e s)) = canvasRef s"
  "pdfFileBuffer (snd (loadPdfLibraries e s)) = pdfFileBuffer s"
  by (simp_all add: loadPdfLibraries_def loadScript_def emit_def)

lemma loadScript_present:
  "url \<in> set (scriptElements s) \<Longrightarrow> loadScript e url s = (Resolved, s)"
  by (simp add: loadScript_def)

lemma loadScript_appends: "url \<in> set (scriptElements (snd (loadScript e url s)))"
  by (auto simp: loadScript_def emit_def)

lemma loadScript_keeps:
  "set (scriptElements s) \<subseteq> set (scriptElements (snd (loadScript e url s)))"
  "scriptsLoadedPromise (snd (loadScript e url s)) = scriptsLoadedPromise s"
  by (auto simp: loadScript_def emit_def)

lemma loadPdfLibraries_rejected:
  assumes "fst (loadPdfLibraries e s) = Rejected"
  shows "\<not> scriptsLoadedPromise (snd (loadPdfLibraries e s)) \<and>
         pdfjs_url \<in> set (scriptElements (snd (loadPdfLibraries e s))) \<and>
         pdflib_url \<in> set (scriptElements (snd (loadPdfLibraries e s)))"
proof -
  from assms have no: "\<not> scriptsLoadedPromise s"
    by (auto simp: loadPdfLibraries_def)
  obtain c1 s1 where l1: "loadScript e pdfjs_url s = (c1, s1)"
    by (cases "loadScript e pdfjs_url s")
  obtain c2 s2 where l2: "loadScript e pdflib_url s1 = (c2, s2)"
    by (cases "loadScript e pdflib_url s1")
  from assms no l1 l2 have s2: "snd (loadPdfLibraries e s) = s2"
    by (auto simp: loadPdfLibraries_def split: if_splits)
  from loadScript_appends [where url = pdfjs_url and e = e and s = s]
    loadScript_keeps [where url = pdfjs_url and e = e and s = s] l1
  have p1: "pdfjs_url \<in> set (scriptElements s1)" "scriptsLoadedPromise s1 = scriptsLoadedPromise s"
    by simp_all
  from loadScript_appends [where url = pdflib_url and e = e and s = s1]
    loadScript_keeps [where url = pdflib_url and e = e and s = s1] l2
  have p2: "pdflib_url \<in> set (scriptElements s2)" "set (scriptElements s1) \<subseteq> set (scriptElements s2)"
    "scriptsLoadedPromise s2 = scriptsLoadedPromise s1"
    by simp_all
  from no p1 p2 show ?thesis unfolding s2 by auto
qed

lemma loadPdfLibraries_retry:
  assumes "fst (loadPdfLibraries e s) = Rejected"
  shows "loadPdfLibraries e' (snd (loadPdfLibraries e s)) =
           (Resolved, (snd (loadPdfLibraries e s))\<lparr>scriptsLoadedPromise := True\<rparr>)"
proof -
  from loadPdfLibraries_rejected [OF assms]
  have r: "\<not> scriptsLoadedPromise (snd (loadPdfLibraries e s))"
    "pdfjs_url \<in> set (scriptElements (snd (loadPdfLibraries e s)))"
    "pdflib_url \<in> set (scriptElements (snd (loadPdfLibraries e s)))"
    by simp_all
  show ?thesis
    unfolding loadPdfLibraries_def [of e' "snd (loadPdfLibraries e s)"]
    by (simp add: r loadScript_present)
qed

text \<open>
  Where the file-load chain ends with the loading flag set. For an accepted file the flag
  is still set at the end exactly when the libraries and the bytes arrived, the rasterizer
  parsed them, and \<open>renderPage 1\<close> returned at one of its guards: the document has no page
  1, or the canvas does not exist yet.
\<close>

lemma onFileSelected_isLoading:
  assumes "ftype f = ''application/pdf''"
  shows "isLoading (onFileSelected e (Some (f # fs)) s) \<longleftrightarrow>
           fst (loadPdfLibraries e s) = Resolved \<and>
           (\<exists>b pdf. arrayBuffer f = Some b \<and> getDocument e b = Some pdf \<and>
                    (numPages pdf < 1 \<or> canvasRef s = None))"
  using assms
  by (auto simp add: onFileSelected_def loadPdfLibraries_def loadScript_def deferredLoad_def
        loadPdf_def Let_def emit_def renderPage_isLoading urls_distinct split: option.split)

text \<open>
  C3 fails on the code. A PDF file is selected in the initial session while the canvas
  does not exist: the libraries load, the bytes parse, \<open>renderPage 1\<close> logs that the canvas
  is not ready and returns, and the chain ends with \<open>isLoading\<close> still true.
\<close>

theorem onFileSelected_leaves_flag_set:
  "isLoading (initial None) = False \<and>
   onFileSelected ex_env (Some [ex_file]) (initial None) =
     \<lparr>canvasRef = None, isLoading = True, pdfFileBuffer = Some [37, 80, 68, 70],
      pdfDocProxy = Some ex_doc, currentPage = 1, totalPages = 1, zoom = 5 / 4,
      canvasWidth = 0, canvasHeight = 0, textItems = [], editedTexts = 1,
      scriptsLoadedPromise = True, scriptElements = [pdfjs_url, pdflib_url],
      outerMaps = (\<lambda>_. [])(1 := []), innerMaps = (\<lambda>_. []),
      nextOuter = 2, nextInner = 0,
      trace = [LoadScript pdfjs_url, LoadScript pdflib_url, ResetFileInput,
               Rasterizer (GetDocument [37, 80, 68, 70]),
               ConsoleError ''Render called before canvas was ready.'']\<rparr>"
  by (simp add: ex_env_def ex_file_def ex_doc_def ex_page_def load_defs urls_distinct)

subsection \<open>Export pipeline\<close>

lemma applyEdits_stale:
  "int (length items) \<le> i \<Longrightarrow>
     applyEdits d k pg items ((i, t) # es) = applyEdits d k pg items es"
  by simp

lemma applyEdits_negative:
  "i < 0 \<Longrightarrow> applyEdits d k pg items ((i, t) # es) = (Rejected, [Rasterizer (GetViewport 1)])"
  by simp

lemma applyEdits_in_range:
  assumes "0 \<le> i" "i < int (length items)"
  shows "applyEdits d k pg items ((i, t) # es) =
     (if \<not> draw_ok d (coverCall k pg (items ! nat i))
      then (Rejected, [Rasterizer (GetViewport 1), Mutator (coverCall k pg (items ! nat i))])
      else if \<not> draw_ok d (textCall k pg (items ! nat i) t)
      then (Rejected, [Rasterizer (GetViewport 1), Mutator (coverCall k pg (items ! nat i)),
                       Mutator (textCall k pg (items ! nat i) t)])
      else (fst (applyEdits d k pg items es),
            Rasterizer (GetViewport 1) # Mutator (coverCall k pg (items ! nat i)) #
            Mutator (textCall k pg (items ! nat i) t) # snd (applyEdits d k pg items es)))"
  using assms
  by (simp add: Let_def coverCall_def textCall_def outputPosition_def split: prod.split)

lemma applyEdits_sound:
  assumes "ev \<in> set (snd (applyEdits d k pg items es))" "isDraw ev"
  shows "\<exists>i t. (i, t) \<in> set es \<and> 0 \<le> i \<and> i < int (length items) \<and>
           (ev = Mutator (coverCall k pg (items ! nat i)) \<or>
            ev = Mutator (textCall k pg (items ! nat i) t))"
  using assms
proof (induction es)
  case Nil
  then show ?case by simp
next
  case (Cons a es)
  obtain i t where a: "a = (i, t)" by (cases a)
  consider "int (length items) \<le> i" | "i < 0" | "0 \<le> i" "i < int (length items)"
    by linarith
  then show ?case
  proof cases
    case 1
    with Cons a show ?thesis by (auto simp del: applyEdits.simps simp: applyEdits_stale)
  next
    case 2
    with Cons.prems a show ?thesis by (auto simp del: applyEdits.simps simp: applyEdits_negative)
  next
    case 3
    show ?thesis
    proof (cases "ev \<in> set (snd (applyEdits d k pg items es))")
      case True
      with Cons.IH Cons.prems(2) show ?thesis by auto
    next
      case False
      with Cons.prems a 3 have "ev = Mutator (coverCall k pg (items ! nat i)) \<or>
            ev = Mutator (textCall k pg (items ! nat i) t)"
        by (auto simp del: applyEdits.simps simp: applyEdits_in_range split: if_splits)
      with a 3 show ?thesis by auto
    qed
  qed
qed

lemma applyEdits_complete:
  assumes "fst (applyEdits d k pg items es) = Resolved" "(i, t) \<in> set es"
    "0 \<le> i" "i < int (length items)"
  shows "Mutator (coverCall k pg (items ! nat i)) \<in> set (snd (applyEdits d k pg items es)) \<and>
         Mutator (textCall k pg (items ! nat i) t) \<in> set (snd (applyEdits d k pg items es))"
  using assms(1,2)
proof (induction es)
  case Nil
  then show ?case by simp
next
  case (Cons a es)
  obtain j u where a: "a = (j, u)" by (cases a)
  consider "int (length items) \<le> j" | "j < 0" | "0 \<le> j" "j < int (length items)"
    by linarith
  then show ?case
  proof cases
    case 1
    with Cons a assms(4) show ?thesis by (auto simp del: applyEdits.simps simp: applyEdits_stale)
  next
    case 2
    with Cons.prems a show ?thesis by (simp del: applyEdits.simps add: applyEdits_negative)
  next
    case 3
    with Cons.prems(1) a have rest: "fst (applyEdits d k pg items es) = Resolved"
      by (simp del: applyEdits.simps add: applyEdits_in_range split: if_splits)
    from Cons.prems(1) a 3 have here:
      "snd (applyEdits d k pg items (a # es)) =
         Rasterizer (GetViewport 1) # Mutator (coverCall k pg (items ! nat j)) #
         Mutator (textCall k pg (items ! nat j) u) # snd (applyEdits d k pg items es)"
      by (simp del: applyEdits.simps add: applyEdits_in_range split: if_splits)
    show ?thesis
    proof (cases "(i, t) = a")
      case True
      with a here show ?thesis by simp
    next
      case False
      with Cons.prems(2) have "(i, t) \<in> set es" by simp
      with Cons.IH rest here show ?thesis by simp
    qed
  qed
qed

lemma applyEdits_skips_stale:
  "applyEdits d k pg items (filter (\<lambda>(i, t). i < int (length items)) es) =
     applyEdits d k pg items es"
proof (induction es)
  case Nil
  then show ?case by simp
next
  case (Cons a es)
  obtain i t where a: "a = (i, t)" by (cases a)
  show ?case
  proof (cases "i < int (length items)")
    case True
    with a Cons show ?thesis by (simp add: Let_def)
  next
    case False
    with a Cons show ?thesis by simp
  qed
qed


lemma exportPages_out_of_range:
  "pageNum < 1 \<or> int (length (getPages d)) < pageNum \<Longrightarrow>
     exportPages d proxy inner ((pageNum, r) # rest) = exportPages d proxy inner rest"
  by (auto simp: Let_def)

lemma exportPages_in_range:
  assumes "1 \<le> pageNum" "pageNum \<le> int (length (getPages d))"
    "getPage pdf pageNum = Some pg" "getTextContent pg = Some items"
  shows "exportPages d (Some pdf) inner ((pageNum, r) # rest) =
     (case applyEdits d (nat (pageNum - 1)) pg items (inner r) of
        (Rejected, evs) \<Rightarrow>
          (Rejected, Mutator (GetSize (nat (pageNum - 1))) # Rasterizer (GetPage pageNum) #
             Rasterizer GetTextContent # evs)
      | (Resolved, evs) \<Rightarrow>
          (fst (exportPages d (Some pdf) inner rest),
           Mutator (GetSize (nat (pageNum - 1))) # Rasterizer (GetPage pageNum) #
             Rasterizer GetTextContent # evs @ snd (exportPages d (Some pdf) inner rest)))"
  using assms by (simp add: Let_def split: prod.split completion.split)

lemma exportPages_failures:
  assumes "1 \<le> pageNum" "pageNum \<le> int (length (getPages d))"
  shows "proxy = None \<Longrightarrow> fst (exportPages d proxy inner ((pageNum, r) # rest)) = Rejected \<and>
      \<not> (\<exists>ev \<in> set (snd (exportPages d proxy inner ((pageNum, r) # rest))). isDraw ev)"
    "proxy = Some pdf \<Longrightarrow> getPage pdf pageNum = None \<Longrightarrow>
      fst (exportPages d proxy inner ((pageNum, r) # rest)) = Rejected \<and>
      \<not> (\<exists>ev \<in> set (snd (exportPages d proxy inner ((pageNum, r) # rest))). isDraw ev)"
    "proxy = Some pdf \<Longrightarrow> getPage pdf pageNum = Some pg \<Longrightarrow> getTextContent pg = None \<Longrightarrow>
      fst (exportPages d proxy inner ((pageNum, r) # rest)) = Rejected \<and>
      \<not> (\<exists>ev \<in> set (snd (exportPages d proxy inner ((pageNum, r) # rest))). isDraw ev)"
  using assms by (simp_all add: Let_def)

lemma exportPages_sound:
  assumes "ev \<in> set (snd (exportPages d proxy inner es))" "isDraw ev"
  shows "\<exists>pageNum r i t pdf pg items.
           (pageNum, r) \<in> set es \<and> (i, t) \<in> set (inner r) \<and>
           1 \<le> pageNum \<and> pageNum \<le> int (length (getPages d)) \<and>
           proxy = Some pdf \<and> getPage pdf pageNum = Some pg \<and> getTextContent pg = Some items \<and>
           0 \<le> i \<and> i < int (length items) \<and>
           (ev = Mutator (coverCall (nat (pageNum - 1)) pg (items ! nat i)) \<or>
            ev = Mutator (textCall (nat (pageNum - 1)) pg (items ! nat i) t))"
  using assms
proof (induction es)
  case Nil
  then show ?case by simp
next
  case (Cons a es)
  obtain p r where a: "a = (p, r)" by (cases a)
  show ?case
  proof (cases "ev \<in> set (snd (exportPages d proxy inner es))")
    case True
    from Cons.IH [OF True Cons.prems(2)] show ?thesis by fastforce
  next
    case False
    note notrest = this
    have inr: "1 \<le> p \<and> p \<le> int (length (getPages d))"
    proof (rule ccontr)
      assume "\<not> ?thesis"
      then have "exportPages d proxy inner (a # es) = exportPages d proxy inner es"
        unfolding a by (intro exportPages_out_of_range) linarith
      with Cons.prems(1) notrest show False by simp
    qed
    then have p1: "1 \<le> p" and p2: "p \<le> int (length (getPages d))" by simp_all
    from exportPages_failures [OF p1 p2, where proxy = proxy and inner = inner and r = r
        and rest = es] Cons.prems a
    obtain pdf pg items where ok: "proxy = Some pdf" "getPage pdf p = Some pg"
      "getTextContent pg = Some items"
      by (cases proxy; cases "getPage (the proxy) p"; cases "getTextContent (the (getPage (the proxy) p))") 
         (auto simp del: exportPages.simps)
    have "ev \<in> set (snd (applyEdits d (nat (p - 1)) pg items (inner r)))"
      using Cons.prems notrest unfolding a ok(1) exportPages_in_range [OF p1 p2 ok(2,3)]
      by (auto split: prod.splits completion.splits)
    from applyEdits_sound [OF this Cons.prems(2)] obtain i t where
      "(i, t) \<in> set (inner r)" "0 \<le> i" "i < int (length items)"
      "ev = Mutator (coverCall (nat (p - 1)) pg (items ! nat i)) \<or>
       ev = Mutator (textCall (nat (p - 1)) pg (items ! nat i) t)"
      by blast
    with a ok p1 p2 show ?thesis
      by (intro exI [of _ p] exI [of _ r] exI [of _ i] exI [of _ t] exI [of _ pdf]
            exI [of _ pg] exI [of _ items]) simp
  qed
qed


lemma exportPages_complete:
  assumes "fst (exportPages d (Some pdf) inner es) = Resolved" "(p, r) \<in> set es"
    and edit: "(i, t) \<in> set (inner r)" "0 \<le> i" "i < int (length items)"
    and page: "1 \<le> p" "p \<le> int (length (getPages d))"
      "getPage pdf p = Some pg" "getTextContent pg = Some items"
  shows "Mutator (coverCall (nat (p - 1)) pg (items ! nat i))
           \<in> set (snd (exportPages d (Some pdf) inner es)) \<and>
         Mutator (textCall (nat (p - 1)) pg (items ! nat i) t)
           \<in> set (snd (exportPages d (Some pdf) inner es))"
  using assms(1,2)
proof (induction es)
  case Nil
  then show ?case by simp
next
  case (Cons a es)
  obtain q r' where a: "a = (q, r')" by (cases a)
  show ?case
  proof (cases "1 \<le> q \<and> q \<le> int (length (getPages d))")
    case False
    then have skip: "exportPages d (Some pdf) inner (a # es) = exportPages d (Some pdf) inner es"
      unfolding a by (intro exportPages_out_of_range) linarith
    from False page a have "(p, r) \<noteq> a" by auto
    with Cons.prems(2) have "(p, r) \<in> set es" by simp
    with Cons.IH Cons.prems(1) skip show ?thesis by simp
  next
    case True
    then have q1: "1 \<le> q" and q2: "q \<le> int (length (getPages d))" by simp_all
    from exportPages_failures(2,3) [OF q1 q2, where proxy = "Some pdf" and pdf = pdf
        and inner = inner and r = r' and rest = es] Cons.prems(1) a
    obtain pg' items' where ok: "getPage pdf q = Some pg'" "getTextContent pg' = Some items'"
      by (cases "getPage pdf q"; cases "getTextContent (the (getPage pdf q))")
         (auto simp del: exportPages.simps)
    note step = exportPages_in_range [OF q1 q2 ok, of inner r' es]
    from Cons.prems(1) have here: "fst (applyEdits d (nat (q - 1)) pg' items' (inner r')) = Resolved"
      and rest: "fst (exportPages d (Some pdf) inner es) = Resolved"
      unfolding a step by (auto split: prod.splits completion.splits)
    have evs: "snd (exportPages d (Some pdf) inner (a # es)) =
        Mutator (GetSize (nat (q - 1))) # Rasterizer (GetPage q) # Rasterizer GetTextContent #
        snd (applyEdits d (nat (q - 1)) pg' items' (inner r')) @
        snd (exportPages d (Some pdf) inner es)"
      using here unfolding a step by (auto split: prod.splits completion.splits)
    show ?thesis
    proof (cases "(p, r) = a")
      case True
      with a ok page have same: "q = p" "r' = r" "pg' = pg" "items' = items" by auto
      from applyEdits_complete [OF here [unfolded same] edit] show ?thesis
        unfolding evs same by simp
    next
      case False
      with Cons.prems(2) have "(p, r) \<in> set es" by simp
      from Cons.IH [OF rest this] show ?thesis unfolding evs by simp
    qed
  qed
qed

lemma applyEdits_calls:
  "ev \<in> set (snd (applyEdits d k pg items es)) \<Longrightarrow> isRasterizerCall ev \<or> isMutatorCall ev"
proof (induction es)
  case Nil
  then show ?case by simp
next
  case (Cons a es)
  obtain i t where a: "a = (i, t)" by (cases a)
  from Cons show ?case unfolding a
    by (auto simp: Let_def split: if_splits prod.splits)
qed

lemma applyEdits_calls_eq:
  "applyEdits d k pg items es = (c, evs) \<Longrightarrow> ev \<in> set evs \<Longrightarrow>
     isRasterizerCall ev \<or> isMutatorCall ev"
  using applyEdits_calls [of ev d k pg items es] by simp

lemma exportPages_calls:
  "ev \<in> set (snd (exportPages d proxy inner es)) \<Longrightarrow> isRasterizerCall ev \<or> isMutatorCall ev"
proof (induction es)
  case Nil
  then show ?case by simp
next
  case (Cons a es)
  obtain p r where a: "a = (p, r)" by (cases a)
  from Cons show ?case unfolding a
    by (auto simp: Let_def split: if_splits prod.splits option.splits completion.splits
          dest: applyEdits_calls_eq)
qed

lemma exportBody_isLoading: "exportBody load buf (s\<lparr>isLoading := b\<rparr>) = exportBody load buf s"
  by (simp add: exportBody_def overlay_def split: option.split)

lemma exported_eq:
  "exported e s =
     (case pdfFileBuffer s of
        None \<Rightarrow> [Alert ''No PDF loaded or PDF library not available.'']
      | Some buf \<Rightarrow>
          (case PDFLib e of
             None \<Rightarrow> [Alert ''No PDF loaded or PDF library not available.'']
           | Some load \<Rightarrow>
               if overlay s = [] then [Alert ''No changes have been made.'']
               else (case exportBody load buf s of
                       (Resolved, evs) \<Rightarrow> evs
                     | (Rejected, evs) \<Rightarrow> evs @ saveFailed)))"
  by (simp add: exported_def downloadPdf_def emit_def Let_def exportBody_isLoading
        split: option.split prod.split completion.split)


lemma exported_draws:
  assumes "ev \<in> set (exported e s)" "isDraw ev"
  shows "\<exists>buf load d. pdfFileBuffer s = Some buf \<and> PDFLib e = Some load \<and> load buf = Some d \<and>
           ev \<in> set (snd (exportPages d (pdfDocProxy s) (innerMaps s) (overlay s)))"
  using assms
  by (auto simp: exported_eq exportBody_def saveFailed_def
        split: option.splits if_splits prod.splits completion.splits)

lemma exported_download:
  assumes "Download b n \<in> set (exported e s)"
    "pdfFileBuffer s = Some buf" "PDFLib e = Some load" "load buf = Some d"
  shows "fst (exportPages d (pdfDocProxy s) (innerMaps s) (overlay s)) = Resolved \<and>
         set (snd (exportPages d (pdfDocProxy s) (innerMaps s) (overlay s)))
           \<subseteq> set (exported e s)"
proof -
  obtain c evs where r: "exportPages d (pdfDocProxy s) (innerMaps s) (overlay s) = (c, evs)"
    by (cases "exportPages d (pdfDocProxy s) (innerMaps s) (overlay s)")
  have no: "Download b n \<notin> set evs"
    using exportPages_calls [of "Download b n" d "pdfDocProxy s" "innerMaps s" "overlay s"] r
    by auto
  from assms no show ?thesis unfolding r
    by (auto simp: exported_eq exportBody_def saveFailed_def r
          split: option.splits if_splits completion.splits)
qed

text \<open>
  C1. Every drawing call of an export is the cover rectangle or the replacement text of a
  recorded edit whose fragment exists, placed at \<open>x = transform[4]\<close> and
  \<open>y = pageHeight - transform[5]\<close> for the height of the page at scale 1. And when the
  export delivers its file, every recorded edit whose page and fragment exist has both
  calls in it, at that position.
\<close>

theorem export_draws_at_fragment_position:
  "(ev \<in> set (exported e s) \<and> isDraw ev \<longrightarrow>
      (\<exists>pageNum r i t pdf pg items.
          (pageNum, r) \<in> set (overlay s) \<and> (i, t) \<in> set (innerMaps s r) \<and>
          pdfDocProxy s = Some pdf \<and> getPage pdf pageNum = Some pg \<and>
          getTextContent pg = Some items \<and> 0 \<le> i \<and> i < int (length items) \<and>
          (ev = Mutator (coverCall (nat (pageNum - 1)) pg (items ! nat i)) \<or>
           ev = Mutator (textCall (nat (pageNum - 1)) pg (items ! nat i) t)))) \<and>
   (Download b n \<in> set (exported e s) \<and>
    pdfFileBuffer s = Some buf \<and> PDFLib e = Some load \<and> load buf = Some d \<and>
    (pageNum, r) \<in> set (overlay s) \<and> (i, t) \<in> set (innerMaps s r) \<and>
    1 \<le> pageNum \<and> pageNum \<le> int (length (getPages d)) \<and>
    pdfDocProxy s = Some pdf \<and> getPage pdf pageNum = Some pg \<and>
    getTextContent pg = Some items \<and> 0 \<le> i \<and> i < int (length items) \<longrightarrow>
      Mutator (coverCall (nat (pageNum - 1)) pg (items ! nat i)) \<in> set (exported e s) \<and>
      Mutator (textCall (nat (pageNum - 1)) pg (items ! nat i) t) \<in> set (exported e s))"
proof (intro conjI impI)
  assume "ev \<in> set (exported e s) \<and> isDraw ev"
  then have ev: "ev \<in> set (exported e s)" and dr: "isDraw ev" by simp_all
  from exported_draws [OF ev dr] obtain d' where
    "ev \<in> set (snd (exportPages d' (pdfDocProxy s) (innerMaps s) (overlay s)))" by blast
  from exportPages_sound [OF this dr]
  show "\<exists>pageNum r i t pdf pg items.
          (pageNum, r) \<in> set (overlay s) \<and> (i, t) \<in> set (innerMaps s r) \<and>
          pdfDocProxy s = Some pdf \<and> getPage pdf pageNum = Some pg \<and>
          getTextContent pg = Some items \<and> 0 \<le> i \<and> i < int (length items) \<and>
          (ev = Mutator (coverCall (nat (pageNum - 1)) pg (items ! nat i)) \<or>
           ev = Mutator (textCall (nat (pageNum - 1)) pg (items ! nat i) t))"
    by blast
next
  assume a: "Download b n \<in> set (exported e s) \<and>
    pdfFileBuffer s = Some buf \<and> PDFLib e = Some load \<and> load buf = Some d \<and>
    (pageNum, r) \<in> set (overlay s) \<and> (i, t) \<in> set (innerMaps s r) \<and>
    1 \<le> pageNum \<and> pageNum \<le> int (length (getPages d)) \<and>
    pdfDocProxy s = Some pdf \<and> getPage pdf pageNum = Some pg \<and>
    getTextContent pg = Some items \<and> 0 \<le> i \<and> i < int (length items)"
  then have ok: "fst (exportPages d (Some pdf) (innerMaps s) (overlay s)) = Resolved"
    and sub: "set (snd (exportPages d (Some pdf) (innerMaps s) (overlay s))) \<subseteq> set (exported e s)"
    using exported_download [of b n e s buf load d] by simp_all
  from a have m: "(pageNum, r) \<in> set (overlay s)" "(i, t) \<in> set (innerMaps s r)"
      "0 \<le> i" "i < int (length items)" "1 \<le> pageNum" "pageNum \<le> int (length (getPages d))"
      "getPage pdf pageNum = Some pg" "getTextContent pg = Some items"
    by simp_all
  have both:
    "Mutator (coverCall (nat (pageNum - 1)) pg (items ! nat i))
       \<in> set (snd (exportPages d (Some pdf) (innerMaps s) (overlay s))) \<and>
     Mutator (textCall (nat (pageNum - 1)) pg (items ! nat i) t)
       \<in> set (snd (exportPages d (Some pdf) (innerMaps s) (overlay s)))"
    by (rule exportPages_complete [OF ok m])
  from both sub
  show "Mutator (coverCall (nat (pageNum - 1)) pg (items ! nat i)) \<in> set (exported e s)"
    by blast
  from both sub
  show "Mutator (textCall (nat (pageNum - 1)) pg (items ! nat i) t) \<in> set (exported e s)"
    by blast
qed

lemma ex_exported:
  "exported ex_env ex_edited =
     [Mutator (Load [37, 80, 68, 70]), Mutator (EmbedFont Helvetica),
      Mutator GetPages, Mutator (GetSize 0), Rasterizer (GetPage 1),
      Rasterizer GetTextContent, Rasterizer (GetViewport 1),
      Mutator (DrawRectangle 0 (Some 50) (Some 92) 40 12 (1, 1, 1)),
      Mutator (DrawText 0 ''X'' (Some 50) (Some 92) Helvetica (54 / 5) (0, 0, 0)),
      Mutator Save, Download [2] ''edited_document.pdf'']"
  by (simp add: exported_eq ex_edited_def ex_loaded_eval updateText_def overlay_def Map_get_def
        exportBody_def ex_env_def ex_mutable_def Let_def)
     (simp add: ex_doc_def ex_page_def ex_fragment_def array_at_def Let_def)


theorem export_draws_at_fragment_position_witness:
  "Download [2] ''edited_document.pdf'' \<in> set (exported ex_env ex_edited) \<and>
   (1, 0) \<in> set (overlay ex_edited) \<and> (0, ''X'') \<in> set (innerMaps ex_edited 0) \<and>
   transform ex_fragment = [1, 0, 0, 1, 50, 700] \<and>
   vp_height (getViewport ex_page 1) = 792 \<and>
   Mutator (DrawRectangle 0 (Some 50) (Some 92) 40 12 (1, 1, 1))
     \<in> set (exported ex_env ex_edited) \<and>
   Mutator (DrawText 0 ''X'' (Some 50) (Some 92) Helvetica (54 / 5) (0, 0, 0))
     \<in> set (exported ex_env ex_edited)"
  using export_draws_at_fragment_position
    [where ev = "Mutator (DrawRectangle 0 (Some 50) (Some 92) 40 12 (1, 1, 1))"
       and e = ex_env and s = ex_edited and b = "[2]" and n = "''edited_document.pdf''"
       and buf = "[37, 80, 68, 70]" and load = "\<lambda>_. Some (ex_mutable 1)" and d = "ex_mutable 1"
       and pageNum = 1 and r = 0 and i = 0 and t = "''X''" and pdf = ex_doc and pg = ex_page
       and items = "[ex_fragment]"]
  by (simp add: ex_exported)
     (simp add: ex_edited_def ex_loaded_eval updateText_def overlay_def Map_get_def
        ex_env_def ex_mutable_def ex_doc_def ex_page_def ex_fragment_def)

text \<open>
  What the two guards of the loops do: an entry whose page number is outside the output
  document's pages, or whose fragment index is at or past the number of fragments, has no
  effect on the export.
\<close>

lemma exportPages_skips_out_of_range:
  "exportPages d proxy inner
     (filter (\<lambda>(p, r). 1 \<le> p \<and> p \<le> int (length (getPages d))) es) =
   exportPages d proxy inner es"
proof (induction es)
  case Nil
  then show ?case by simp
next
  case (Cons a es)
  obtain p r where a: "a = (p, r)" by (cases a)
  show ?case
  proof (cases "1 \<le> p \<and> p \<le> int (length (getPages d))")
    case True
    with a Cons show ?thesis
      by (simp add: Let_def split: option.split prod.split completion.split)
  next
    case False
    then have "exportPages d proxy inner ((p, r) # es) = exportPages d proxy inner es"
      by (intro exportPages_out_of_range) linarith
    with False a Cons show ?thesis by (auto simp del: exportPages.simps)
  qed
qed

text \<open>
  With the fragment keys not below zero and the library calls succeeding, neither loop
  throws.
\<close>

lemma applyEdits_resolves:
  assumes "\<forall>(i, t) \<in> set es. 0 \<le> i" "\<forall>c. draw_ok d c"
  shows "fst (applyEdits d k pg items es) = Resolved"
  using assms(1)
proof (induction es)
  case Nil
  then show ?case by simp
next
  case (Cons a es)
  obtain i t where a: "a = (i, t)" by (cases a)
  from Cons.prems a have i0: "0 \<le> i" and rest: "\<forall>(i, t) \<in> set es. 0 \<le> i" by auto
  note IH = Cons.IH [OF rest]
  show ?case
  proof (cases "i < int (length items)")
    case True
    with i0 a IH assms(2) show ?thesis
      by (simp del: applyEdits.simps add: applyEdits_in_range)
  next
    case False
    with a IH show ?thesis by (simp del: applyEdits.simps add: applyEdits_stale)
  qed
qed

lemma exportPages_resolves:
  assumes draw: "\<forall>c. draw_ok d c"
    and pages: "\<forall>(p, r) \<in> set es. 1 \<le> p \<and> p \<le> int (length (getPages d)) \<longrightarrow>
                  (\<exists>pg items. getPage pdf p = Some pg \<and> getTextContent pg = Some items)"
    and keys: "\<forall>(p, r) \<in> set es. \<forall>(i, t) \<in> set (inner r). 0 \<le> i"
  shows "fst (exportPages d (Some pdf) inner es) = Resolved"
  using pages keys
proof (induction es)
  case Nil
  then show ?case by simp
next
  case (Cons a es)
  obtain p r where a: "a = (p, r)" by (cases a)
  from Cons.prems have
    "\<forall>(p, r) \<in> set es. 1 \<le> p \<and> p \<le> int (length (getPages d)) \<longrightarrow>
        (\<exists>pg items. getPage pdf p = Some pg \<and> getTextContent pg = Some items)"
    "\<forall>(p, r) \<in> set es. \<forall>(i, t) \<in> set (inner r). 0 \<le> i"
    by simp_all
  then have IH: "fst (exportPages d (Some pdf) inner es) = Resolved" by (rule Cons.IH)
  show ?case
  proof (cases "1 \<le> p \<and> p \<le> int (length (getPages d))")
    case False
    then have "exportPages d (Some pdf) inner ((p, r) # es) = exportPages d (Some pdf) inner es"
      by (intro exportPages_out_of_range) linarith
    with IH a show ?thesis by (simp del: exportPages.simps)
  next
    case True
    then have p1: "1 \<le> p" and p2: "p \<le> int (length (getPages d))" by simp_all
    from Cons.prems(1) a True obtain pg items where
      ok: "getPage pdf p = Some pg" "getTextContent pg = Some items" by auto
    from Cons.prems(2) a have "\<forall>(i, t) \<in> set (inner r). 0 \<le> i" by simp
    from applyEdits_resolves [OF this draw]
    have "fst (applyEdits d (nat (p - 1)) pg items (inner r)) = Resolved" .
    then obtain evs where "applyEdits d (nat (p - 1)) pg items (inner r) = (Resolved, evs)"
      by (cases "applyEdits d (nat (p - 1)) pg items (inner r)") simp
    with IH show ?thesis
      unfolding a exportPages_in_range [OF p1 p2 ok] by simp
  qed
qed

lemma exported_resolved:
  assumes "pdfFileBuffer s = Some buf" "PDFLib e = Some load" "load buf = Some d" "embedFont d"
    "overlay s \<noteq> []"
    "fst (exportPages d (pdfDocProxy s) (innerMaps s) (overlay s)) = Resolved"
    "save d (drawn (snd (exportPages d (pdfDocProxy s) (innerMaps s) (overlay s)))) = Some b"
  shows "exported e s =
           Mutator (Load buf) # Mutator (EmbedFont Helvetica) # Mutator GetPages #
           snd (exportPages d (pdfDocProxy s) (innerMaps s) (overlay s)) @
           [Mutator Save, Download b ''edited_document.pdf'']"
proof -
  obtain c evs where r: "exportPages d (pdfDocProxy s) (innerMaps s) (overlay s) = (c, evs)"
    by (cases "exportPages d (pdfDocProxy s) (innerMaps s) (overlay s)")
  with assms show ?thesis
    by (simp add: exported_eq exportBody_def)
qed

text \<open>
  C4. Fragment keys are written by \<open>updateText\<close> from the index of a rendered fragment, so
  they are not below zero. For such an overlay, with the library calls succeeding, the
  export delivers its file and raises no failure notice, however many recorded edits are
  out of range. Only edits whose page and fragment exist are drawn, every one of them is
  drawn, and the loops run as they would without the entries whose page number is outside
  the output document's pages or whose fragment index is at or past the number of
  fragments.
\<close>

theorem export_skips_stale_edits:
  assumes "pdfFileBuffer s = Some buf" "PDFLib e = Some load" "load buf = Some d"
    and "pdfDocProxy s = Some pdf" "overlay s \<noteq> []"
    and lib: "embedFont d" "\<forall>c. draw_ok d c" "\<forall>cs. save d cs \<noteq> None"
    and pages: "\<forall>(p, r) \<in> set (overlay s). 1 \<le> p \<and> p \<le> int (length (getPages d)) \<longrightarrow>
                  (\<exists>pg items. getPage pdf p = Some pg \<and> getTextContent pg = Some items)"
    and keys: "\<forall>(p, r) \<in> set (overlay s). \<forall>(i, t) \<in> set (innerMaps s r). 0 \<le> i"
  shows "(\<exists>b. Download b ''edited_document.pdf'' \<in> set (exported e s)) \<and>
         (\<forall>m. Alert m \<notin> set (exported e s) \<and> ConsoleError m \<notin> set (exported e s)) \<and>
         (\<forall>ev. ev \<in> set (exported e s) \<and> isDraw ev \<longrightarrow>
            (\<exists>p r i t pg items.
               (p, r) \<in> set (overlay s) \<and> (i, t) \<in> set (innerMaps s r) \<and>
               1 \<le> p \<and> p \<le> int (length (getPages d)) \<and>
               getPage pdf p = Some pg \<and> getTextContent pg = Some items \<and>
               0 \<le> i \<and> i < int (length items) \<and>
               (ev = Mutator (coverCall (nat (p - 1)) pg (items ! nat i)) \<or>
                ev = Mutator (textCall (nat (p - 1)) pg (items ! nat i) t)))) \<and>
         (\<forall>p r i t pg items.
            (p, r) \<in> set (overlay s) \<and> (i, t) \<in> set (innerMaps s r) \<and>
            1 \<le> p \<and> p \<le> int (length (getPages d)) \<and>
            getPage pdf p = Some pg \<and> getTextContent pg = Some items \<and>
            i < int (length items) \<longrightarrow>
              Mutator (coverCall (nat (p - 1)) pg (items ! nat i)) \<in> set (exported e s) \<and>
              Mutator (textCall (nat (p - 1)) pg (items ! nat i) t) \<in> set (exported e s)) \<and>
         exportPages d (Some pdf) (innerMaps s)
           (filter (\<lambda>(p, r). 1 \<le> p \<and> p \<le> int (length (getPages d))) (overlay s)) =
           exportPages d (Some pdf) (innerMaps s) (overlay s) \<and>
         (\<forall>k pg items edits.
            applyEdits d k pg items (filter (\<lambda>(i, t). i < int (length items)) edits) =
            applyEdits d k pg items edits)"
proof -
  let ?evs = "snd (exportPages d (Some pdf) (innerMaps s) (overlay s))"
  have ok: "fst (exportPages d (Some pdf) (innerMaps s) (overlay s)) = Resolved"
    by (rule exportPages_resolves [OF lib(2) pages keys])
  from lib(3) obtain b where b: "save d (drawn ?evs) = Some b" by auto
  have ex: "exported e s =
      Mutator (Load buf) # Mutator (EmbedFont Helvetica) # Mutator GetPages #
      ?evs @ [Mutator Save, Download b ''edited_document.pdf'']"
    using exported_resolved [OF assms(1-3) lib(1) assms(5), of b] ok b
    unfolding assms(4) by simp
  have calls: "\<And>ev. ev \<in> set ?evs \<Longrightarrow> isRasterizerCall ev \<or> isMutatorCall ev"
    by (rule exportPages_calls)
  have delivered: "\<exists>b. Download b ''edited_document.pdf'' \<in> set (exported e s)"
    unfolding ex by auto
  have quiet: "\<forall>m. Alert m \<notin> set (exported e s) \<and> ConsoleError m \<notin> set (exported e s)"
  proof (intro allI conjI notI)
    fix m
    assume "Alert m \<in> set (exported e s)"
    then have "Alert m \<in> set ?evs" unfolding ex by simp
    from calls [OF this] show False by simp
  next
    fix m
    assume "ConsoleError m \<in> set (exported e s)"
    then have "ConsoleError m \<in> set ?evs" unfolding ex by simp
    from calls [OF this] show False by simp
  qed
  have sound: "\<forall>ev. ev \<in> set (exported e s) \<and> isDraw ev \<longrightarrow>
            (\<exists>p r i t pg items.
               (p, r) \<in> set (overlay s) \<and> (i, t) \<in> set (innerMaps s r) \<and>
               1 \<le> p \<and> p \<le> int (length (getPages d)) \<and>
               getPage pdf p = Some pg \<and> getTextContent pg = Some items \<and>
               0 \<le> i \<and> i < int (length items) \<and>
               (ev = Mutator (coverCall (nat (p - 1)) pg (items ! nat i)) \<or>
                ev = Mutator (textCall (nat (p - 1)) pg (items ! nat i) t)))"
  proof (intro allI impI)
    fix ev
    assume "ev \<in> set (exported e s) \<and> isDraw ev"
    then have "ev \<in> set ?evs" and dr: "isDraw ev" unfolding ex by auto
    from exportPages_sound [OF this] show "\<exists>p r i t pg items.
               (p, r) \<in> set (overlay s) \<and> (i, t) \<in> set (innerMaps s r) \<and>
               1 \<le> p \<and> p \<le> int (length (getPages d)) \<and>
               getPage pdf p = Some pg \<and> getTextContent pg = Some items \<and>
               0 \<le> i \<and> i < int (length items) \<and>
               (ev = Mutator (coverCall (nat (p - 1)) pg (items ! nat i)) \<or>
                ev = Mutator (textCall (nat (p - 1)) pg (items ! nat i) t))"
      by blast
  qed
  have complete: "\<forall>p r i t pg items.
            (p, r) \<in> set (overlay s) \<and> (i, t) \<in> set (innerMaps s r) \<and>
            1 \<le> p \<and> p \<le> int (length (getPages d)) \<and>
            getPage pdf p = Some pg \<and> getTextContent pg = Some items \<and>
            i < int (length items) \<longrightarrow>
              Mutator (coverCall (nat (p - 1)) pg (items ! nat i)) \<in> set (exported e s) \<and>
              Mutator (textCall (nat (p - 1)) pg (items ! nat i) t) \<in> set (exported e s)"
  proof (intro allI impI)
    fix p r i t pg items
    assume a: "(p, r) \<in> set (overlay s) \<and> (i, t) \<in> set (innerMaps s r) \<and>
            1 \<le> p \<and> p \<le> int (length (getPages d)) \<and>
            getPage pdf p = Some pg \<and> getTextContent pg = Some items \<and>
            i < int (length items)"
    with keys have i0: "0 \<le> i" by auto
    from a have m: "(p, r) \<in> set (overlay s)" "(i, t) \<in> set (innerMaps s r)" by simp_all
    from a have n: "i < int (length items)" "1 \<le> p" "p \<le> int (length (getPages d))"
      "getPage pdf p = Some pg" "getTextContent pg = Some items" by simp_all
    from exportPages_complete [OF ok m i0 n]
    show "Mutator (coverCall (nat (p - 1)) pg (items ! nat i)) \<in> set (exported e s) \<and>
          Mutator (textCall (nat (p - 1)) pg (items ! nat i) t) \<in> set (exported e s)"
      unfolding ex by simp
  qed
  from delivered quiet sound complete show ?thesis
    by (simp only: exportPages_skips_out_of_range applyEdits_skips_stale simp_thms)
qed

text \<open>
  The session in which page 2 of the second example document, which has three fragments,
  is shown and holds an edit for fragment 5 and an edit for fragment 1; and its export.
\<close>

lemma ex_stale_eval:
  "pdfFileBuffer ex_stale = Some [37, 80, 68, 70]"
  "pdfDocProxy ex_stale = Some ex_doc2"
  "overlay ex_stale = [(2, 0)]"
  "innerMaps ex_stale 0 = [(5, ''X''), (1, ''Y'')]"
  by (simp_all add: ex_stale_def ex_defs load_defs overlay_def updateText_def Map_get_def)

lemma ex_stale_exported:
  "exported ex_env2 ex_stale =
     [Mutator (Load [37, 80, 68, 70]), Mutator (EmbedFont Helvetica), Mutator GetPages,
      Mutator (GetSize 1), Rasterizer (GetPage 2), Rasterizer GetTextContent,
      Rasterizer (GetViewport 1),
      Mutator (DrawRectangle 1 (Some 50) (Some 92) 40 12 (1, 1, 1)),
      Mutator (DrawText 1 ''Y'' (Some 50) (Some 92) Helvetica (54 / 5) (0, 0, 0)),
      Mutator Save, Download [2] ''edited_document.pdf'']"
  by (simp add: exported_eq ex_stale_eval exportBody_def ex_env2_def ex_mutable_def Let_def
        ex_doc2_def ex_page2_def ex_fragment_def array_at_def)

theorem export_skips_stale_edits_witness:
  "overlay ex_stale = [(2, 0)] \<and> innerMaps ex_stale 0 = [(5, ''X''), (1, ''Y'')] \<and>
   map_option length (getTextContent ex_page2) = Some 3 \<and>
   Download [2] ''edited_document.pdf'' \<in> set (exported ex_env2 ex_stale) \<and>
   Alert ''An error occurred while saving the PDF.'' \<notin> set (exported ex_env2 ex_stale) \<and>
   drawn (exported ex_env2 ex_stale) =
     [DrawRectangle 1 (Some 50) (Some 92) 40 12 (1, 1, 1),
      DrawText 1 ''Y'' (Some 50) (Some 92) Helvetica (54 / 5) (0, 0, 0)]"
  using export_skips_stale_edits
    [where s = ex_stale and e = ex_env2 and buf = "[37, 80, 68, 70]"
       and load = "\<lambda>_. Some (ex_mutable 2)" and d = "ex_mutable 2" and pdf = ex_doc2]
  by (simp add: ex_stale_exported ex_stale_eval)
     (simp add: ex_page2_def)

text \<open>
  The hypothesis on the keys is needed, since the fragment guard tests the upper bound
  only: were a key below zero recorded, the export would read a missing element and end in
  the failure notice.
\<close>

lemma downloadPdf_negative_key:
  "exported ex_env (updateText 0 ''Y'' (updateText (- 1) ''X'' ex_loaded)) =
     [Mutator (Load [37, 80, 68, 70]), Mutator (EmbedFont Helvetica), Mutator GetPages,
      Mutator (GetSize 0), Rasterizer (GetPage 1), Rasterizer GetTextContent,
      Rasterizer (GetViewport 1),
      ConsoleError ''Error saving PDF:'', Alert ''An error occurred while saving the PDF.'']"
  by (simp add: exported_eq ex_loaded_eval updateText_def overlay_def Map_get_def
        exportBody_def ex_env_def ex_mutable_def Let_def saveFailed_def)
     (simp add: ex_doc_def ex_page_def ex_fragment_def array_at_def Let_def saveFailed_def)

text \<open>
  C7. An export requested with an empty overlay only raises a notice: the session is the
  old one with one alert appended, so no library call is made and nothing is delivered.
  With the original buffer and the library present the notice is that no changes have been
  made. With no original buffer, or no library, an export only raises the notice that no
  PDF is loaded, whatever the overlay holds.
\<close>

theorem downloadPdf_preconditions:
  "(overlay s = [] \<and> pdfFileBuffer s \<noteq> None \<and> PDFLib e \<noteq> None \<longrightarrow>
      downloadPdf e s = s\<lparr>trace := trace s @ [Alert ''No changes have been made.'']\<rparr>) \<and>
   (pdfFileBuffer s = None \<or> PDFLib e = None \<longrightarrow>
      downloadPdf e s =
        s\<lparr>trace := trace s @ [Alert ''No PDF loaded or PDF library not available.'']\<rparr>) \<and>
   (overlay s = [] \<longrightarrow> (\<exists>m. downloadPdf e s = s\<lparr>trace := trace s @ [Alert m]\<rparr>))"
  by (auto simp: downloadPdf_def emit_def split: option.splits)

theorem downloadPdf_preconditions_witness:
  "overlay ex_loaded = [] \<and> pdfFileBuffer ex_loaded \<noteq> None \<and> PDFLib ex_env \<noteq> None \<and>
   exported ex_env ex_loaded = [Alert ''No changes have been made.''] \<and>
   pdfFileBuffer (updateText 0 ''X'' (initial None)) = None \<and>
   overlay (updateText 0 ''X'' (initial None)) \<noteq> [] \<and>
   exported ex_env (updateText 0 ''X'' (initial None)) =
     [Alert ''No PDF loaded or PDF library not available.''] \<and>
   overlay (initial None) = [] \<and> pdfFileBuffer (initial None) = None \<and>
   exported ex_env (initial None) = [Alert ''No PDF loaded or PDF library not available.'']"
  using downloadPdf_preconditions [of ex_loaded ex_env]
    downloadPdf_preconditions [of "updateText 0 ''X'' (initial None)" ex_env]
    downloadPdf_preconditions [of "initial None" ex_env]
  by (simp add: exported_def)
     (simp add: ex_loaded_eval overlay_def ex_env_def updateText_def initial_def Map_get_def)

text \<open>An export started with the loading flag clear ends with it clear.\<close>

lemma downloadPdf_isLoading: "\<not> isLoading s \<Longrightarrow> \<not> isLoading (downloadPdf e s)"
  by (simp add: downloadPdf_def emit_def Let_def split: option.split prod.split completion.split)

end
